theory Spec2Isabelle
  imports Main "HOL-Library.Word"
begin

unbundle bit_operations_syntax

section \<open>The ADLink PCI-9118 analog-input driver (adl\_pci9118.c)\<close>

text \<open>
  A shallow embedding of the acquisition core of \<^verbatim>\<open>adl_pci9118.c\<close>.
  C's \<^verbatim>\<open>unsigned int\<close> is a 32-bit word, \<^verbatim>\<open>unsigned short\<close> a 16-bit
  word and \<^verbatim>\<open>unsigned char\<close> an 8-bit word, so every addition, multiplication
  and conversion wraps or truncates as the C does.  A C \<^verbatim>\<open>int\<close> that holds a
  count is a 32-bit word read through \<open>sint\<close> where the C compares it as signed;
  an \<^verbatim>\<open>int\<close> that only carries a return code is a HOL \<open>int\<close>.

  The driver state is the private structure \<^verbatim>\<open>struct pci9118_private\<close> and the
  fields of the subdevice's \<^verbatim>\<open>comedi_async\<close> that the driver writes.  Port
  writes (\<^verbatim>\<open>outl\<close>) leave that state alone, and none of the functions below
  branches on a port read (\<^verbatim>\<open>inl\<close>), so port traffic is not part of the model.

  What would crash the kernel is a value of the model: a read outside the
  channel list and a division by zero are results of type \<open>fault\<close>.
\<close>

type_synonym u8 = "8 word"
type_synonym u16 = "16 word"
type_synonym u32 = "32 word"

datatype fault = MemFault | DivByZero

subsection \<open>Constants of the comedi headers\<close>

text \<open>
  Modelled from the spec: the trigger sources, command flags, channel
  descriptor macros and error numbers come from \<^verbatim>\<open>comedi.h\<close> and
  \<^verbatim>\<open>errno.h\<close>, which are not under src/.  The spec names the trigger
  sources (immediate, follow, timer, count, external, software-internal,
  none) and describes a channel-list entry as a tuple of channel, range and
  reference mode; the values below are the ones of the comedi headers: one
  bit per trigger source, and the descriptor layout of \<^verbatim>\<open>CR_PACK\<close>.
\<close>

definition TRIG_NONE :: u32 where "TRIG_NONE = 0x01"
definition TRIG_NOW :: u32 where "TRIG_NOW = 0x02"
definition TRIG_FOLLOW :: u32 where "TRIG_FOLLOW = 0x04"
definition TRIG_TIMER :: u32 where "TRIG_TIMER = 0x10"
definition TRIG_COUNT :: u32 where "TRIG_COUNT = 0x20"
definition TRIG_EXT :: u32 where "TRIG_EXT = 0x40"
definition TRIG_INT :: u32 where "TRIG_INT = 0x80"
definition TRIG_INVALID :: u32 where "TRIG_INVALID = 0"

definition TRIG_WAKE_EOS :: u32 where "TRIG_WAKE_EOS = 0x20"
definition TRIG_ROUND_MASK :: u32 where "TRIG_ROUND_MASK = 0x30000"
definition TRIG_ROUND_NEAREST :: u32 where "TRIG_ROUND_NEAREST = 0"

definition AREF_DIFF :: u32 where "AREF_DIFF = 0x02"

definition CR_CHAN :: "u32 \<Rightarrow> u32" where
  "CR_CHAN a = a AND 0xffff"

definition CR_RANGE :: "u32 \<Rightarrow> u32" where
  "CR_RANGE a = drop_bit 16 a AND 0xff"

definition CR_AREF :: "u32 \<Rightarrow> u32" where
  "CR_AREF a = drop_bit 24 a AND 0x03"

definition CR_PACK :: "u32 \<Rightarrow> u32 \<Rightarrow> u32 \<Rightarrow> u32" where
  "CR_PACK chan rng aref =
     push_bit 24 (aref AND 0x3) OR push_bit 16 (rng AND 0xff) OR chan"

definition EINVAL :: int where "EINVAL = 22"
definition EIO :: int where "EIO = 5"

definition COMEDI_CB_EOA :: u32 where "COMEDI_CB_EOA = 2"
definition COMEDI_CB_ERROR :: u32 where "COMEDI_CB_ERROR = 16"

text \<open>
  Modelled from the spec: \<^verbatim>\<open>I8254_OSC_BASE_4MHZ\<close> is a constant of
  \<^verbatim>\<open>8253.h\<close>, which is not under src/.  It is the period in nanoseconds of
  the 4 MHz pacer clock (the spec's clock period; the driver's comment reads
  \<^verbatim>\<open>fr=4Mhz/(tim1*tim2)\<close>).
\<close>

definition I8254_OSC_BASE_4MHZ :: u32 where "I8254_OSC_BASE_4MHZ = 250"

subsection \<open>Constants of the driver\<close>

definition PCI9118_CHANLEN :: u32 where "PCI9118_CHANLEN = 255"
definition PCI9118_BIPOLAR_RANGES :: u32 where "PCI9118_BIPOLAR_RANGES = 4"

definition AdControl_UniP :: u8 where "AdControl_UniP = 0x80"
definition AdControl_Diff :: u8 where "AdControl_Diff = 0x40"
definition AdControl_SoftG :: u8 where "AdControl_SoftG = 0x20"
definition AdControl_ExtG :: u8 where "AdControl_ExtG = 0x10"
definition AdControl_ExtM :: u8 where "AdControl_ExtM = 0x08"
definition AdControl_TmrTr :: u8 where "AdControl_TmrTr = 0x04"
definition AdControl_Int :: u8 where "AdControl_Int = 0x02"
definition AdControl_Dma :: u8 where "AdControl_Dma = 0x01"

definition AdFunction_PDTrg :: u8 where "AdFunction_PDTrg = 0x80"
definition AdFunction_PETrg :: u8 where "AdFunction_PETrg = 0x40"
definition AdFunction_BSSH :: u8 where "AdFunction_BSSH = 0x20"
definition AdFunction_BM :: u8 where "AdFunction_BM = 0x10"
definition AdFunction_BS :: u8 where "AdFunction_BS = 0x08"
definition AdFunction_PM :: u8 where "AdFunction_PM = 0x04"
definition AdFunction_AM :: u8 where "AdFunction_AM = 0x02"
definition AdFunction_Start :: u8 where "AdFunction_Start = 0x01"

definition Int_Timer :: u8 where "Int_Timer = 0x08"
definition Int_About :: u8 where "Int_About = 0x04"
definition Int_Hfull :: u8 where "Int_Hfull = 0x02"
definition Int_DTrg :: u8 where "Int_DTrg = 0x01"

definition START_AI_EXT :: u8 where "START_AI_EXT = 0x01"
definition STOP_AI_EXT :: u8 where "STOP_AI_EXT = 0x02"
definition START_AI_INT :: u8 where "START_AI_INT = 0x04"
definition STOP_AI_INT :: u8 where "STOP_AI_INT = 0x08"

definition EXTTRG_AI :: u8 where "EXTTRG_AI = 0"

subsection \<open>The board table\<close>

record boardtype =
  name :: string
  device_id :: u32
  n_aichan :: u32
  n_aichand :: u32
  mux_aichan :: u32
  n_aichanlist :: u32
  n_aochan :: u32
  ai_maxdata :: u32
  ao_maxdata :: u32
  ai_ns_min :: u32
  ai_pacer_min :: u32
  half_fifo_size :: u32

definition pci9118dg :: boardtype where
  "pci9118dg = \<lparr> name = ''pci9118dg'', device_id = 0x80d9, n_aichan = 16,
     n_aichand = 8, mux_aichan = 256, n_aichanlist = PCI9118_CHANLEN,
     n_aochan = 2, ai_maxdata = 0x0fff, ao_maxdata = 0x0fff,
     ai_ns_min = 3000, ai_pacer_min = 12, half_fifo_size = 512 \<rparr>"

definition pci9118hg :: boardtype where
  "pci9118hg = \<lparr> name = ''pci9118hg'', device_id = 0x80d9, n_aichan = 16,
     n_aichand = 8, mux_aichan = 256, n_aichanlist = PCI9118_CHANLEN,
     n_aochan = 2, ai_maxdata = 0x0fff, ao_maxdata = 0x0fff,
     ai_ns_min = 3000, ai_pacer_min = 12, half_fifo_size = 512 \<rparr>"

definition pci9118hr :: boardtype where
  "pci9118hr = \<lparr> name = ''pci9118hr'', device_id = 0x80d9, n_aichan = 16,
     n_aichand = 8, mux_aichan = 256, n_aichanlist = PCI9118_CHANLEN,
     n_aochan = 2, ai_maxdata = 0xffff, ao_maxdata = 0x0fff,
     ai_ns_min = 10000, ai_pacer_min = 40, half_fifo_size = 512 \<rparr>"

definition boardtypes :: "boardtype list" where
  "boardtypes = [pci9118dg, pci9118hg, pci9118hr]"

subsection \<open>The command, the subdevice and the private state\<close>

text \<open>
  \<^verbatim>\<open>struct comedi_cmd\<close>: the channel list pointer is \<open>None\<close> when it is
  \<^verbatim>\<open>NULL\<close>, and otherwise the entries it points to.
\<close>

record comedi_cmd =
  start_src :: u32
  start_arg :: u32
  scan_begin_src :: u32
  scan_begin_arg :: u32
  convert_src :: u32
  convert_arg :: u32
  scan_end_src :: u32
  scan_end_arg :: u32
  stop_src :: u32
  stop_arg :: u32
  chanlist :: "u32 list option"
  chanlist_len :: u32
  flags :: u32

text \<open>
  The fields of \<^verbatim>\<open>comedi_subdevice\<close> and its \<^verbatim>\<open>comedi_async\<close> that the
  driver reads or writes.  \<open>inttrig\<close> is the internal-trigger callback:
  \<open>False\<close> is \<^verbatim>\<open>NULL\<close>, \<open>True\<close> is \<^verbatim>\<open>pci9118_ai_inttrig\<close>, the only
  function the driver ever stores there.
\<close>

record comedi_subdevice =
  len_chanlist :: u32
  cmd :: comedi_cmd
  cur_chan :: u32
  events :: u32
  inttrig :: bool
  prealloc_bufsz :: u32

record pci9118_private =
  master :: u32
  usemux :: u32
  AdControlReg :: u8
  IntControlReg :: u8
  AdFunctionReg :: u8
  ai_neverending :: u8
  ai_do :: u32
  ai_act_scan :: u32
  ai_n_realscanlen :: u32
  ai_act_dmapos :: u32
  ai_add_front :: u32
  ai_add_back :: u32
  ai_flags :: u32
  ai12_startstop :: u8
  ai_divisor1 :: u32
  ai_divisor2 :: u32
  dma_doublebuf :: u8
  dma_actbuf :: u32
  dmabuf_size :: "u32 \<times> u32"
  dmabuf_use_size :: "u32 \<times> u32"
  exttrg_users :: u8
  usedma :: u8
  softsshdelay :: u32
  ai_maskerr :: u32
  ai_maskharderr :: u32

subsection \<open>check\_channel\_list\<close>

text \<open>
  The loop \<^verbatim>\<open>for (i = 1; i < n_chan; i++)\<close> of \<^verbatim>\<open>check_channel_list\<close>.
  \<open>differencial\<close> and \<open>bipolar\<close> are the C's 0/1 flags.  The comparison of
  the channel with \<^verbatim>\<open>this_board->n_aichand\<close> is unsigned, as in C.
\<close>

function check_channel_loop ::
  "boardtype \<Rightarrow> pci9118_private \<Rightarrow> u32 list \<Rightarrow> bool \<Rightarrow> bool \<Rightarrow> nat \<Rightarrow> nat \<Rightarrow> fault + int"
where
  "check_channel_loop this_board devpriv cl differencial bipolar i n =
     (if i < n then
        (if length cl \<le> i then Inl MemFault
         else if (CR_AREF (cl ! i) = AREF_DIFF) \<noteq> differencial then Inr 0
         else if (CR_RANGE (cl ! i) < PCI9118_BIPOLAR_RANGES) \<noteq> bipolar then Inr 0
         else if usemux devpriv = 0 \<and> differencial \<and>
                 n_aichand this_board \<le> CR_CHAN (cl ! i) then Inr 0
         else check_channel_loop this_board devpriv cl differencial bipolar (Suc i) n)
      else Inr 1)"
  by pat_completeness auto
termination
  by (relation "measure (\<lambda>(b, p, cl, d, bp, i, n). n - i)") auto

declare check_channel_loop.simps [simp del]

text \<open>
  \<^verbatim>\<open>check_channel_list(dev, s, n_chan, chanlist, frontadd, backadd)\<close>.
  \<open>n_chan\<close>, \<open>frontadd\<close>, \<open>backadd\<close> and \<^verbatim>\<open>s->len_chanlist\<close> are C
  \<^verbatim>\<open>int\<close>s: the two tests on them are signed.
\<close>

definition check_channel_list ::
  "boardtype \<Rightarrow> pci9118_private \<Rightarrow> comedi_subdevice \<Rightarrow> u32 \<Rightarrow> u32 list \<Rightarrow> u32 \<Rightarrow> u32
     \<Rightarrow> fault + int"
where
  "check_channel_list this_board devpriv s n_chan cl frontadd backadd =
     (if sint n_chan < 1 then Inr 0
      else if sint (len_chanlist s) < sint (frontadd + n_chan + backadd) then Inr 0
      else if cl = [] then Inl MemFault
      else check_channel_loop this_board devpriv cl
             (CR_AREF (cl ! 0) = AREF_DIFF)
             (CR_RANGE (cl ! 0) < PCI9118_BIPOLAR_RANGES) 1 (unat n_chan))"

subsection \<open>defragment\_dma\_buffer\<close>

text \<open>
  The loop of \<^verbatim>\<open>defragment_dma_buffer\<close>: \<open>i\<close> reads, \<open>j\<close> writes, both into
  the same buffer, and \<open>pos\<close> is \<^verbatim>\<open>devpriv->ai_act_dmapos\<close>.  The increment
  of \<open>pos\<close> wraps at 32 bits before the remainder is taken; a zero
  \<open>raw_scanlen\<close> is a division by zero.
\<close>

function defragment_loop ::
  "u32 \<Rightarrow> u32 \<Rightarrow> u32 \<Rightarrow> nat \<Rightarrow> nat \<Rightarrow> nat \<Rightarrow> u16 list \<Rightarrow> u32 \<Rightarrow> fault + (nat \<times> u16 list \<times> u32)"
where
  "defragment_loop start_pos stop_pos raw_scanlen num_samples i j buf pos =
     (if i < num_samples then
        (if length buf \<le> i then Inl MemFault
         else if raw_scanlen = 0 then Inl DivByZero
         else if start_pos \<le> pos \<and> pos < stop_pos
           then defragment_loop start_pos stop_pos raw_scanlen num_samples (Suc i) (Suc j)
                  (buf[j := buf ! i]) ((pos + 1) mod raw_scanlen)
           else defragment_loop start_pos stop_pos raw_scanlen num_samples (Suc i) j
                  buf ((pos + 1) mod raw_scanlen))
      else Inr (j, buf, pos))"
  by pat_completeness auto
termination
  by (relation "measure (\<lambda>(a, b, r, n, i, j, buf, pos). n - i)") auto

declare defragment_loop.simps [simp del]

text \<open>
  \<^verbatim>\<open>defragment_dma_buffer(dev, s, dma_buffer, num_samples)\<close> returns the
  count \<open>j\<close>, the buffer as the loop left it (its first \<open>j\<close> entries are the
  compacted samples) and the private state with the new cursor.
\<close>

definition defragment_dma_buffer ::
  "pci9118_private \<Rightarrow> comedi_subdevice \<Rightarrow> u16 list \<Rightarrow> u32
     \<Rightarrow> fault + (u32 \<times> u16 list \<times> pci9118_private)"
where
  "defragment_dma_buffer devpriv s dma_buffer num_samples =
     (let start_pos = ai_add_front devpriv;
          stop_pos = ai_add_front devpriv + chanlist_len (cmd s);
          raw_scanlen = ai_add_front devpriv + chanlist_len (cmd s) + ai_add_back devpriv
      in case defragment_loop start_pos stop_pos raw_scanlen (unat num_samples) 0 0
                dma_buffer (ai_act_dmapos devpriv) of
           Inl f \<Rightarrow> Inl f
         | Inr (j, buf, pos) \<Rightarrow> Inr (word_of_nat j, buf, devpriv\<lparr>ai_act_dmapos := pos\<rparr>))"

subsection \<open>The external trigger users\<close>

text \<open>
  \<^verbatim>\<open>pci9118_exttrg_add\<close> and \<^verbatim>\<open>pci9118_exttrg_del\<close>: the return code and the
  new private state.  Their port writes are not part of the state.
\<close>

definition pci9118_exttrg_add :: "pci9118_private \<Rightarrow> u8 \<Rightarrow> int \<times> pci9118_private" where
  "pci9118_exttrg_add devpriv source =
     (if 3 < source then (- 1, devpriv)
      else (0, devpriv\<lparr>exttrg_users := exttrg_users devpriv OR push_bit (unat source) 1,
                         IntControlReg := IntControlReg devpriv OR Int_DTrg\<rparr>))"

definition pci9118_exttrg_del :: "pci9118_private \<Rightarrow> u8 \<Rightarrow> int \<times> pci9118_private" where
  "pci9118_exttrg_del devpriv source =
     (if 3 < source then (- 1, devpriv)
      else let d = devpriv\<lparr>exttrg_users :=
                     exttrg_users devpriv AND NOT (push_bit (unat source) 1)\<rparr>
           in if exttrg_users d = 0
              then (0, d\<lparr>IntControlReg := IntControlReg d AND NOT Int_DTrg\<rparr>)
              else (0, d))"

subsection \<open>pci9118\_ai\_cancel\<close>

text \<open>
  \<^verbatim>\<open>pci9118_ai_cancel(dev, s)\<close>: the return code, the private state and the
  subdevice.  \<^verbatim>\<open>pci9118_start_pacer\<close> and the register resets are port writes
  only.
\<close>

definition pci9118_ai_cancel ::
  "pci9118_private \<Rightarrow> comedi_subdevice \<Rightarrow> int \<times> pci9118_private \<times> comedi_subdevice"
where
  "pci9118_ai_cancel devpriv s =
     (let d = snd (pci9118_exttrg_del devpriv EXTTRG_AI)
      in (0,
          d\<lparr>AdFunctionReg := AdFunction_PDTrg OR AdFunction_PETrg,
            AdControlReg := 0,
            ai_do := 0,
            usedma := 0,
            ai_act_scan := 0,
            ai_act_dmapos := 0,
            ai_neverending := 0,
            dma_actbuf := 0\<rparr>,
          s\<lparr>cur_chan := 0, inttrig := False\<rparr>))"

subsection \<open>pci9118\_decode\_error\_status\<close>

text \<open>
  \<^verbatim>\<open>pci9118_decode_error_status(dev, s, m)\<close> with \<^verbatim>\<open>unsigned char m\<close>: in each
  test \<open>m\<close> is promoted to 32 bits.  The result is the returned \<^verbatim>\<open>char\<close>, the
  private state and the subdevice with its event flags.  The call of
  \<^verbatim>\<open>cfc_handle_events\<close> hands the flags to the comedi core, which is outside
  this model.
\<close>

definition pci9118_decode_error_status ::
  "pci9118_private \<Rightarrow> comedi_subdevice \<Rightarrow> u8 \<Rightarrow> int \<times> pci9118_private \<times> comedi_subdevice"
where
  "pci9118_decode_error_status devpriv s m =
     (let d1 = (if (ucast m :: u32) AND 0x100 \<noteq> 0
                then devpriv\<lparr>ai_maskerr := ai_maskerr devpriv AND NOT 0x100\<rparr> else devpriv);
          d2 = (if (ucast m :: u32) AND 0x008 \<noteq> 0
                then d1\<lparr>ai_maskerr := ai_maskerr d1 AND NOT 0x008\<rparr> else d1);
          d3 = (if (ucast m :: u32) AND 0x004 \<noteq> 0
                then d2\<lparr>ai_maskerr := ai_maskerr d2 AND NOT 0x004\<rparr> else d2);
          d4 = (if (ucast m :: u32) AND 0x002 \<noteq> 0
                then d3\<lparr>ai_maskerr := ai_maskerr d3 AND NOT 0x002\<rparr> else d3)
      in if (ucast m :: u32) AND ai_maskharderr d4 \<noteq> 0
         then (1, d4, s\<lparr>events := events s OR COMEDI_CB_ERROR OR COMEDI_CB_EOA\<rparr>)
         else (0, d4, s))"

text \<open>
  The hard-error mask that \<^verbatim>\<open>pci9118_common_attach\<close> sets from the
  configuration option \<^verbatim>\<open>hw_err_mask\<close> (lines 1970 to 1973).
\<close>

definition attach_maskharderr :: "u32 \<Rightarrow> u32" where
  "attach_maskharderr hw_err_mask =
     (if hw_err_mask \<noteq> 0 then 0x10a AND NOT hw_err_mask else 0x10a)"

subsection \<open>The pacer divisors\<close>

text \<open>
  Modelled from the spec: \<^verbatim>\<open>i8253_cascade_ns_to_timer\<close> is a function of
  \<^verbatim>\<open>8253.h\<close>, which is not under src/.  The spec says of it that it cascades
  the clock generator pair to hit the requested period, and gives its
  rounding policy: the nearest valid divisor when round-to-nearest is asked
  for, otherwise rounding up, so that the period is never shorter than the
  requested one.  The model takes the number of clock periods by that policy
  and returns it with the realised period, the number times the clock base.
  The spec does not say how the number is split between the two counters:
  the model gives it to the first and 1 to the second, and nothing below
  depends on the split.  Round-to-nearest is asked for when the rounding
  field of the flags holds \<open>TRIG_ROUND_NEAREST\<close>.
\<close>

definition cascade_divider :: "nat \<Rightarrow> nat \<Rightarrow> bool \<Rightarrow> nat" where
  "cascade_divider base ns nearest =
     (let down = ns div base;
          up = (ns + base - 1) div base
      in if nearest then (if up * base - ns < ns - down * base then up else down) else up)"

definition i8253_cascade_ns_to_timer ::
  "u32 \<Rightarrow> u32 \<Rightarrow> u32 \<Rightarrow> u32 \<Rightarrow> u32 \<Rightarrow> u32 \<times> u32 \<times> u32"
where
  "i8253_cascade_ns_to_timer osc_base d1 d2 nanosec round_mode =
     (let divider = cascade_divider (unat osc_base) (unat nanosec)
                      (round_mode AND TRIG_ROUND_MASK = TRIG_ROUND_NEAREST)
      in (word_of_nat divider, 1, word_of_nat (divider * unat osc_base)))"

text \<open>
  \<^verbatim>\<open>pci9118_calc_divisors\<close>: the four values behind its pointers, in the order
  \<open>(tim1, tim2, div1, div2)\<close>.  \<open>mode\<close> is a \<^verbatim>\<open>char\<close>; \<open>chans\<close> is an
  \<^verbatim>\<open>int\<close> that the C compares with the unsigned \<open>div2\<close>, so the comparison
  is unsigned.  The division by \<open>div1\<close> is a division by zero when the
  board's \<open>ai_pacer_min\<close> and the quotient are both zero.
\<close>

definition pci9118_calc_divisors ::
  "u8 \<Rightarrow> boardtype \<Rightarrow> comedi_subdevice \<Rightarrow> u32 \<Rightarrow> u32 \<Rightarrow> u32 \<Rightarrow> u32 \<Rightarrow> u32 \<Rightarrow> u32 \<Rightarrow> u32
     \<Rightarrow> fault + (u32 \<times> u32 \<times> u32 \<times> u32)"
where
  "pci9118_calc_divisors mode this_board s tim1 tim2 flgs chans div1 div2 chnsshfront =
     (if mode = 1 \<or> mode = 4 then
        (let t2 = (if tim2 < ai_ns_min this_board then ai_ns_min this_board else tim2);
             (d1, d2, t2') = i8253_cascade_ns_to_timer I8254_OSC_BASE_4MHZ div1 div2 t2
                               (flgs AND TRIG_ROUND_NEAREST)
         in Inr (tim1, t2', d1, d2))
      else if mode = 2 then
        (let t2 = (if tim2 < ai_ns_min this_board then ai_ns_min this_board else tim2);
             d1 = t2 div I8254_OSC_BASE_4MHZ;
             d1 = (if d1 < ai_pacer_min this_board then ai_pacer_min this_board else d1);
             d2 = tim1 div I8254_OSC_BASE_4MHZ
         in if d1 = 0 then Inl DivByZero
            else
              (let d2 = d2 div d1;
                   d2 = (if d2 < chans then chans else d2);
                   t2' = d1 * I8254_OSC_BASE_4MHZ;
                   d2 = (if convert_src (cmd s) = TRIG_NOW \<and> chnsshfront = 0
                         then (if d2 < chans + 2 then chans + 2 else d2) else d2)
               in Inr (d1 * d2 * I8254_OSC_BASE_4MHZ, t2', d1, d2)))
      else Inr (tim1, tim2, div1, div2))"

subsection \<open>The command test\<close>

text \<open>
  Modelled from the spec: the argument checkers of \<^verbatim>\<open>comedi_fc.h\<close> are not
  under src/.  By the spec the validation rejects an invalid source, a
  source that is not unique and an argument out of range, and adjusts an
  out-of-range argument to the nearest legal value.  Each checker returns the
  error code (0 or \<open>- EINVAL\<close>) and the value it leaves behind its pointer.
\<close>

definition cfc_check_trigger_src :: "u32 \<Rightarrow> u32 \<Rightarrow> int \<times> u32" where
  "cfc_check_trigger_src src flgs =
     (let src' = src AND flgs
      in (if src' = TRIG_INVALID \<or> src' \<noteq> src then - EINVAL else 0, src'))"

definition cfc_check_trigger_is_unique :: "u32 \<Rightarrow> int" where
  "cfc_check_trigger_is_unique src = (if src AND (src - 1) \<noteq> 0 then - EINVAL else 0)"

definition cfc_check_trigger_arg_is :: "u32 \<Rightarrow> u32 \<Rightarrow> int \<times> u32" where
  "cfc_check_trigger_arg_is arg val = (if arg \<noteq> val then (- EINVAL, val) else (0, arg))"

definition cfc_check_trigger_arg_min :: "u32 \<Rightarrow> u32 \<Rightarrow> int \<times> u32" where
  "cfc_check_trigger_arg_min arg val = (if arg < val then (- EINVAL, val) else (0, arg))"

definition cfc_check_trigger_arg_max :: "u32 \<Rightarrow> u32 \<Rightarrow> int \<times> u32" where
  "cfc_check_trigger_arg_max arg val = (if val < arg then (- EINVAL, val) else (0, arg))"

text \<open>Step 1 of \<^verbatim>\<open>pci9118_ai_cmdtest\<close> (lines 1127 to 1142).\<close>

definition cmdtest_step1 :: "pci9118_private \<Rightarrow> comedi_cmd \<Rightarrow> int \<times> comedi_cmd" where
  "cmdtest_step1 devpriv c =
     (let (e1, v1) = cfc_check_trigger_src (start_src c) (TRIG_NOW OR TRIG_EXT OR TRIG_INT);
          f2 = (if master devpriv \<noteq> 0 then TRIG_FOLLOW OR (TRIG_TIMER OR TRIG_EXT)
                else TRIG_FOLLOW);
          (e2, v2) = cfc_check_trigger_src (scan_begin_src c) f2;
          f3 = (if master devpriv \<noteq> 0 then (TRIG_TIMER OR TRIG_EXT) OR TRIG_NOW
                else TRIG_TIMER OR TRIG_EXT);
          (e3, v3) = cfc_check_trigger_src (convert_src c) f3;
          (e4, v4) = cfc_check_trigger_src (scan_end_src c) TRIG_COUNT;
          (e5, v5) = cfc_check_trigger_src (stop_src c) (TRIG_COUNT OR TRIG_NONE OR TRIG_EXT)
      in (e1 OR e2 OR e3 OR e4 OR e5,
          c\<lparr>start_src := v1, scan_begin_src := v2, convert_src := v3,
            scan_end_src := v4, stop_src := v5\<rparr>))"

text \<open>Step 2 (lines 1149 to 1171).\<close>

definition cmdtest_step2 :: "comedi_cmd \<Rightarrow> int" where
  "cmdtest_step2 c =
     cfc_check_trigger_is_unique (start_src c)
     OR cfc_check_trigger_is_unique (scan_begin_src c)
     OR cfc_check_trigger_is_unique (convert_src c)
     OR cfc_check_trigger_is_unique (stop_src c)
     OR (if start_src c = TRIG_EXT \<and> scan_begin_src c = TRIG_EXT then - EINVAL else 0)
     OR (if start_src c = TRIG_INT \<and> scan_begin_src c = TRIG_INT then - EINVAL else 0)
     OR (if scan_begin_src c AND (TRIG_TIMER OR TRIG_EXT) \<noteq> 0 \<and>
            \<not> convert_src c AND (TRIG_TIMER OR TRIG_NOW) \<noteq> 0 then - EINVAL else 0)
     OR (if scan_begin_src c = TRIG_FOLLOW \<and>
            \<not> convert_src c AND (TRIG_TIMER OR TRIG_EXT) \<noteq> 0 then - EINVAL else 0)
     OR (if stop_src c = TRIG_EXT \<and> scan_begin_src c = TRIG_EXT then - EINVAL else 0)"

text \<open>
  Step 3 is a sequence of statements \<^verbatim>\<open>err |= check(&cmd->field, ...)\<close>.
  Each statement is a function from the command to the error code it adds
  and the command it leaves; \<open>err_step\<close> is the \<^verbatim>\<open>err |=\<close> around it.
\<close>

definition err_step ::
  "(comedi_cmd \<Rightarrow> int \<times> comedi_cmd) \<Rightarrow> int \<times> comedi_cmd \<Rightarrow> int \<times> comedi_cmd"
where
  "err_step check ec = (fst ec OR fst (check (snd ec)), snd (check (snd ec)))"

text \<open>Lines 1178 to 1186: the switch on the start source.\<close>

definition step3_start_arg :: "comedi_cmd \<Rightarrow> int \<times> comedi_cmd" where
  "step3_start_arg c =
     (if start_src c = TRIG_NOW \<or> start_src c = TRIG_EXT
      then (fst (cfc_check_trigger_arg_is (start_arg c) 0),
            c\<lparr>start_arg := snd (cfc_check_trigger_arg_is (start_arg c) 0)\<rparr>)
      else (0, c))"

text \<open>Lines 1188 and 1189.\<close>

definition step3_scan_begin_zero :: "comedi_cmd \<Rightarrow> int \<times> comedi_cmd" where
  "step3_scan_begin_zero c =
     (if scan_begin_src c AND (TRIG_FOLLOW OR TRIG_EXT) \<noteq> 0
      then (fst (cfc_check_trigger_arg_is (scan_begin_arg c) 0),
            c\<lparr>scan_begin_arg := snd (cfc_check_trigger_arg_is (scan_begin_arg c) 0)\<rparr>)
      else (0, c))"

text \<open>
  Lines 1191 to 1196: a timed scan of one channel becomes a timed conversion.
  The statement adds nothing to \<open>err\<close>.
\<close>

definition cmdtest_rewrite :: "comedi_cmd \<Rightarrow> comedi_cmd" where
  "cmdtest_rewrite c =
     (if scan_begin_src c = TRIG_TIMER \<and> convert_src c = TRIG_TIMER \<and> scan_end_arg c = 1
      then c\<lparr>scan_begin_src := TRIG_FOLLOW,
             convert_arg := scan_begin_arg c,
             scan_begin_arg := 0\<rparr>
      else c)"

definition step3_rewrite :: "comedi_cmd \<Rightarrow> int \<times> comedi_cmd" where
  "step3_rewrite c = (0, cmdtest_rewrite c)"

text \<open>Lines 1198 to 1200.\<close>

definition step3_scan_begin_min :: "boardtype \<Rightarrow> comedi_cmd \<Rightarrow> int \<times> comedi_cmd" where
  "step3_scan_begin_min this_board c =
     (if scan_begin_src c = TRIG_TIMER
      then (fst (cfc_check_trigger_arg_min (scan_begin_arg c) (ai_ns_min this_board)),
            c\<lparr>scan_begin_arg :=
                snd (cfc_check_trigger_arg_min (scan_begin_arg c) (ai_ns_min this_board))\<rparr>)
      else (0, c))"

text \<open>Lines 1202 to 1208.\<close>

definition step3_scan_begin_ext :: "comedi_cmd \<Rightarrow> int \<times> comedi_cmd" where
  "step3_scan_begin_ext c =
     (if scan_begin_src c = TRIG_EXT \<and> scan_begin_arg c \<noteq> 0
      then (- EINVAL OR fst (cfc_check_trigger_arg_max (scan_end_arg c) 65535),
            c\<lparr>scan_begin_arg := 0,
              scan_end_arg := snd (cfc_check_trigger_arg_max (scan_end_arg c) 65535)\<rparr>)
      else (0, c))"

text \<open>Lines 1210 to 1212.\<close>

definition step3_convert_min :: "boardtype \<Rightarrow> comedi_cmd \<Rightarrow> int \<times> comedi_cmd" where
  "step3_convert_min this_board c =
     (if convert_src c AND (TRIG_TIMER OR TRIG_NOW) \<noteq> 0
      then (fst (cfc_check_trigger_arg_min (convert_arg c) (ai_ns_min this_board)),
            c\<lparr>convert_arg :=
                snd (cfc_check_trigger_arg_min (convert_arg c) (ai_ns_min this_board))\<rparr>)
      else (0, c))"

text \<open>Lines 1214 and 1215.\<close>

definition step3_convert_ext :: "comedi_cmd \<Rightarrow> int \<times> comedi_cmd" where
  "step3_convert_ext c =
     (if convert_src c = TRIG_EXT
      then (fst (cfc_check_trigger_arg_is (convert_arg c) 0),
            c\<lparr>convert_arg := snd (cfc_check_trigger_arg_is (convert_arg c) 0)\<rparr>)
      else (0, c))"

text \<open>Lines 1217 to 1220.\<close>

definition step3_stop_arg :: "comedi_cmd \<Rightarrow> int \<times> comedi_cmd" where
  "step3_stop_arg c =
     (if stop_src c = TRIG_COUNT
      then (fst (cfc_check_trigger_arg_min (stop_arg c) 1),
            c\<lparr>stop_arg := snd (cfc_check_trigger_arg_min (stop_arg c) 1)\<rparr>)
      else (fst (cfc_check_trigger_arg_is (stop_arg c) 0),
            c\<lparr>stop_arg := snd (cfc_check_trigger_arg_is (stop_arg c) 0)\<rparr>))"

text \<open>Line 1222.\<close>

definition step3_chanlist_len :: "comedi_cmd \<Rightarrow> int \<times> comedi_cmd" where
  "step3_chanlist_len c =
     (fst (cfc_check_trigger_arg_min (chanlist_len c) 1),
      c\<lparr>chanlist_len := snd (cfc_check_trigger_arg_min (chanlist_len c) 1)\<rparr>)"

text \<open>Lines 1224 and 1225.\<close>

definition step3_scan_end_min :: "comedi_cmd \<Rightarrow> int \<times> comedi_cmd" where
  "step3_scan_end_min c =
     (fst (cfc_check_trigger_arg_min (scan_end_arg c) (chanlist_len c)),
      c\<lparr>scan_end_arg := snd (cfc_check_trigger_arg_min (scan_end_arg c) (chanlist_len c))\<rparr>)"

text \<open>
  Lines 1227 to 1231.  The statement before it has made \<open>chanlist_len\<close> at
  least 1, so the remainder is defined there.
\<close>

definition step3_scan_end_mod :: "comedi_cmd \<Rightarrow> int \<times> comedi_cmd" where
  "step3_scan_end_mod c =
     (if scan_end_arg c mod chanlist_len c \<noteq> 0
      then (- EINVAL,
            c\<lparr>scan_end_arg := chanlist_len c * (scan_end_arg c div chanlist_len c)\<rparr>)
      else (0, c))"

text \<open>Step 3 (lines 1178 to 1231): the statements in their order.\<close>

definition cmdtest_step3 :: "boardtype \<Rightarrow> comedi_cmd \<Rightarrow> int \<times> comedi_cmd" where
  "cmdtest_step3 this_board c =
     fold err_step
       [step3_start_arg,
        step3_scan_begin_zero,
        step3_rewrite,
        step3_scan_begin_min this_board,
        step3_scan_begin_ext,
        step3_convert_min this_board,
        step3_convert_ext,
        step3_stop_arg,
        step3_chanlist_len,
        step3_scan_end_min,
        step3_scan_end_mod]
       (0, c)"

text \<open>
  Step 4 (lines 1238 to 1264).  The two local divisors start at 0 and are
  handed from the first call of the cascade helper to the second.
\<close>

definition cmdtest_step4 :: "boardtype \<Rightarrow> comedi_cmd \<Rightarrow> int \<times> comedi_cmd" where
  "cmdtest_step4 this_board c =
     (let (e1, c1, divisor1, divisor2) =
            (if scan_begin_src c = TRIG_TIMER
             then (let (d1, d2, arg) = i8253_cascade_ns_to_timer I8254_OSC_BASE_4MHZ 0 0
                                         (scan_begin_arg c) (flags c);
                       (e, v) = cfc_check_trigger_arg_is (scan_begin_arg c) arg
                   in (e, c\<lparr>scan_begin_arg := v\<rparr>, d1, d2))
             else (0, c, 0, 0));
          (e2, c2) =
            (if convert_src c1 AND (TRIG_TIMER OR TRIG_NOW) \<noteq> 0
             then (let (d1, d2, arg) = i8253_cascade_ns_to_timer I8254_OSC_BASE_4MHZ
                                         divisor1 divisor2 (convert_arg c1) (flags c1);
                       (e, v) = cfc_check_trigger_arg_is (convert_arg c1) arg;
                       ca = c1\<lparr>convert_arg := v\<rparr>
                   in if scan_begin_src ca = TRIG_TIMER \<and> convert_src ca = TRIG_NOW
                      then (let arg' = (if convert_arg ca = 0
                                        then ai_ns_min this_board * (scan_end_arg ca + 2)
                                        else convert_arg ca * chanlist_len ca);
                                (e', v') = cfc_check_trigger_arg_min (scan_begin_arg ca) arg'
                            in (e OR e', ca\<lparr>scan_begin_arg := v'\<rparr>))
                      else (e, ca))
             else (0, c1))
      in (e1 OR e2, c2))"

text \<open>
  \<^verbatim>\<open>pci9118_ai_cmdtest(dev, s, cmd)\<close>: the step number it returns (0 when the
  command is accepted) and the command as the test leaves it.
\<close>

definition pci9118_ai_cmdtest ::
  "boardtype \<Rightarrow> pci9118_private \<Rightarrow> comedi_subdevice \<Rightarrow> comedi_cmd \<Rightarrow> fault + (int \<times> comedi_cmd)"
where
  "pci9118_ai_cmdtest this_board devpriv s c =
     (let (e1, c1) = cmdtest_step1 devpriv c
      in if e1 \<noteq> 0 then Inr (1, c1)
         else if cmdtest_step2 c1 \<noteq> 0 then Inr (2, c1)
         else
           (let (e3, c3) = cmdtest_step3 this_board c1
            in if e3 \<noteq> 0 then Inr (3, c3)
               else
                 (let (e4, c4) = cmdtest_step4 this_board c3
                  in if e4 \<noteq> 0 then Inr (4, c4)
                     else
                       (case chanlist c4 of
                          None \<Rightarrow> Inr (0, c4)
                        | Some cl \<Rightarrow>
                            (case check_channel_list this_board devpriv s (chanlist_len c4) cl 0 0 of
                               Inl f \<Rightarrow> Inl f
                             | Inr r \<Rightarrow> if r = 0 then Inr (5, c4) else Inr (0, c4))))))"

text \<open>
  The single-timer command that the rewrite of step 3 makes of a timed scan
  of one channel.
\<close>

definition timer_one_rewritten :: "comedi_cmd \<Rightarrow> comedi_cmd" where
  "timer_one_rewritten c =
     c\<lparr>scan_begin_src := TRIG_FOLLOW, convert_arg := scan_begin_arg c, scan_begin_arg := 0\<rparr>"

subsection \<open>Starting a command\<close>

text \<open>
  \<^verbatim>\<open>setup_channel_list\<close>: the control register shadow takes its polarity and
  reference bits from the first entry; the writes to the scan queue are port
  writes.  The paranoid-check code is compiled out (\<^verbatim>\<open>#undef\<close>), so \<open>rot\<close>
  and \<open>usedma\<close> have no effect.  The loop over the real channels reads
  \<open>n_chan\<close> entries.
\<close>

definition setup_channel_list ::
  "pci9118_private \<Rightarrow> u32 \<Rightarrow> u32 list \<Rightarrow> u32 \<Rightarrow> u32 \<Rightarrow> u32 \<Rightarrow> u32
     \<Rightarrow> fault + (int \<times> pci9118_private)"
where
  "setup_channel_list devpriv n_chan cl rot frontadd backadd usedma' =
     (if cl = [] then Inl MemFault
      else
        (let differencial = (CR_AREF (cl ! 0) = AREF_DIFF);
             bipolar = (CR_RANGE (cl ! 0) < PCI9118_BIPOLAR_RANGES);
             d1 = (if \<not> bipolar
                   then devpriv\<lparr>AdControlReg := AdControlReg devpriv OR AdControl_UniP\<rparr>
                   else devpriv\<lparr>AdControlReg :=
                          AdControlReg devpriv AND (NOT AdControl_UniP AND 0xff)\<rparr>);
             d2 = (if differencial
                   then d1\<lparr>AdControlReg := AdControlReg d1 OR AdControl_Diff\<rparr>
                   else d1\<lparr>AdControlReg :=
                          AdControlReg d1 AND (NOT AdControl_Diff AND 0xff)\<rparr>)
         in if length cl < unat n_chan then Inl MemFault else Inr (1, d2)))"

text \<open>
  \<^verbatim>\<open>Compute_and_setup_dma\<close>, first its computation: the flags (the function
  may clear \<^verbatim>\<open>TRIG_WAKE_EOS\<close> in \<^verbatim>\<open>devpriv->ai_flags\<close>) and the local
  variables \<open>dmalen0\<close> and \<open>dmalen1\<close> as they stand when the function stores
  them.  The pair \<open>dmabuf_size\<close> is \<^verbatim>\<open>dmabuf_size[0]\<close> and
  \<^verbatim>\<open>dmabuf_size[1]\<close>.  The division by the length of one scan in bytes is a
  division by zero when that length is 0.
\<close>

definition dma_transfer_sizes ::
  "pci9118_private \<Rightarrow> comedi_subdevice \<Rightarrow> fault + (u32 \<times> u32 \<times> u32)"
where
  "dma_transfer_sizes devpriv s =
     (let dmalen0 = fst (dmabuf_size devpriv);
          dmalen1 = snd (dmabuf_size devpriv);
          dmalen0 = (if prealloc_bufsz s < dmalen0 then prealloc_bufsz s AND NOT 3 else dmalen0);
          dmalen1 = (if prealloc_bufsz s < dmalen1 then prealloc_bufsz s AND NOT 3 else dmalen1);
          scan = push_bit 1 (ai_n_realscanlen devpriv);
          (fl, dmalen0) =
            (if ai_flags devpriv AND TRIG_WAKE_EOS \<noteq> 0
             then (if dmalen0 < scan then (ai_flags devpriv AND NOT TRIG_WAKE_EOS, dmalen0)
                   else (ai_flags devpriv, if scan < 4 then 4 else scan))
             else (ai_flags devpriv, dmalen0));
          (fl, dmalen1) =
            (if fl AND TRIG_WAKE_EOS \<noteq> 0
             then (if dmalen1 < scan then (fl AND NOT TRIG_WAKE_EOS, dmalen1)
                   else (fl, if scan < 4 then 4 else scan))
             else (fl, dmalen1))
      in if fl AND TRIG_WAKE_EOS = 0
         then
           (if scan = 0 then Inl DivByZero
            else
              (let a0 = (dmalen0 div scan) * scan AND NOT 3;
                   a0 = (if a0 = 0 then dmalen0 else a0);
                   a1 = (dmalen1 div scan) * scan AND NOT 3;
                   a1 = (if a1 = 0 then dmalen1 else a1)
               in if ai_neverending devpriv = 0
                  then (if scan * stop_arg (cmd s) < a0
                        then Inr (fl, scan * stop_arg (cmd s) AND NOT 3, a1)
                        else Inr (fl, a0,
                                  (if scan * stop_arg (cmd s) - a0 < a1
                                   then scan * stop_arg (cmd s) - a0 else a1) AND NOT 3))
                  else Inr (fl, a0, a1)))
         else Inr (fl, dmalen0, dmalen1))"

text \<open>
  \<^verbatim>\<open>Compute_and_setup_dma\<close> stores the sizes, makes buffer 0 the active one
  and returns 0.
\<close>

definition Compute_and_setup_dma ::
  "pci9118_private \<Rightarrow> comedi_subdevice \<Rightarrow> fault + (int \<times> pci9118_private)"
where
  "Compute_and_setup_dma devpriv s =
     (case dma_transfer_sizes devpriv s of
        Inl f \<Rightarrow> Inl f
      | Inr (fl, dmalen0, dmalen1) \<Rightarrow>
          Inr (0, devpriv\<lparr>ai_flags := fl, dma_actbuf := 0,
                         dmabuf_use_size := (dmalen0, dmalen1)\<rparr>))"

text \<open>\<^verbatim>\<open>pci9118_ai_docmd_sampl\<close>: the interrupt-driven start.\<close>

definition pci9118_ai_docmd_sampl :: "pci9118_private \<Rightarrow> int \<times> pci9118_private" where
  "pci9118_ai_docmd_sampl devpriv =
     (if ai_do devpriv = 1 \<or> ai_do devpriv = 3 then
        (let d1 = (if ai_do devpriv = 1
                   then devpriv\<lparr>AdControlReg := AdControlReg devpriv OR AdControl_TmrTr\<rparr>
                   else devpriv\<lparr>AdControlReg := AdControlReg devpriv OR AdControl_ExtM\<rparr>);
             d2 = (if ai12_startstop d1 \<noteq> 0 then snd (pci9118_exttrg_add d1 EXTTRG_AI) else d1);
             d3 = (if ai_do d2 = 1 \<or> ai_do d2 = 2
                   then d2\<lparr>IntControlReg := IntControlReg d2 OR Int_Timer\<rparr> else d2);
             d4 = d3\<lparr>AdControlReg := AdControlReg d3 OR AdControl_Int\<rparr>;
             d5 = (if ai12_startstop d4 AND (START_AI_EXT OR START_AI_INT) = 0 \<and> ai_do d4 \<noteq> 3
                   then d4\<lparr>AdControlReg := AdControlReg d4 OR AdControl_SoftG\<rparr> else d4)
         in (0, d5))
      else (- EIO, devpriv))"

text \<open>\<^verbatim>\<open>pci9118_ai_docmd_dma\<close>: the bus-master start.\<close>

definition pci9118_ai_docmd_dma ::
  "pci9118_private \<Rightarrow> comedi_subdevice \<Rightarrow> fault + (int \<times> pci9118_private)"
where
  "pci9118_ai_docmd_dma devpriv s =
     (case Compute_and_setup_dma devpriv s of
        Inl f \<Rightarrow> Inl f
      | Inr (r, d0) \<Rightarrow>
          (if ai_do d0 = 1 \<or> ai_do d0 = 2 \<or> ai_do d0 = 3 \<or> ai_do d0 = 4 then
             (let d1 =
                (if ai_do d0 = 1 then
                   d0\<lparr>AdControlReg :=
                        AdControlReg d0 OR ((AdControl_TmrTr OR AdControl_Dma) AND 0xff)\<rparr>
                 else if ai_do d0 = 2 then
                   (let da = d0\<lparr>AdControlReg :=
                                  AdControlReg d0 OR ((AdControl_TmrTr OR AdControl_Dma) AND 0xff),
                                AdFunctionReg := AdFunction_PDTrg OR AdFunction_PETrg OR
                                  AdFunction_BM OR AdFunction_BS\<rparr>
                    in if convert_src (cmd s) = TRIG_NOW \<and> softsshdelay da = 0
                       then da\<lparr>AdFunctionReg := AdFunctionReg da OR AdFunction_BSSH\<rparr>
                       else da)
                 else if ai_do d0 = 3 then
                   d0\<lparr>AdControlReg :=
                        AdControlReg d0 OR ((AdControl_ExtM OR AdControl_Dma) AND 0xff),
                      AdFunctionReg := AdFunction_PDTrg OR AdFunction_PETrg\<rparr>
                 else
                   d0\<lparr>AdControlReg :=
                        AdControlReg d0 OR ((AdControl_TmrTr OR AdControl_Dma) AND 0xff),
                      AdFunctionReg := AdFunction_PDTrg OR AdFunction_PETrg OR
                        AdFunction_AM OR AdFunction_Start\<rparr>);
                  d2 = (if ai12_startstop d1 \<noteq> 0
                        then snd (pci9118_exttrg_add d1 EXTTRG_AI) else d1);
                  d3 = (if ai12_startstop d2 AND (START_AI_EXT OR START_AI_INT) = 0 \<and>
                           ai_do d2 \<noteq> 3
                        then d2\<lparr>AdControlReg := AdControlReg d2 OR AdControl_SoftG\<rparr> else d2)
              in Inr (0, d3))
           else Inr (- EIO, d0)))"

text \<open>
  \<^verbatim>\<open>pci9118_ai_cmd\<close>, block by block.  First the start and stop conditions
  (lines 1543 to 1563).
\<close>

definition ai_cmd_startstop ::
  "pci9118_private \<Rightarrow> comedi_subdevice \<Rightarrow> pci9118_private \<times> comedi_subdevice"
where
  "ai_cmd_startstop devpriv s =
     (let c = cmd s;
          d0 = devpriv\<lparr>ai12_startstop := 0, ai_flags := flags c, ai_add_front := 0,
                       ai_add_back := 0, ai_maskerr := 0x10e\<rparr>;
          d1 = (if start_src c = TRIG_EXT
                then d0\<lparr>ai12_startstop := ai12_startstop d0 OR START_AI_EXT\<rparr> else d0);
          d2 = (if stop_src c = TRIG_EXT
                then d1\<lparr>ai_neverending := 1,
                       ai12_startstop := ai12_startstop d1 OR STOP_AI_EXT\<rparr> else d1);
          d3 = (if start_src c = TRIG_INT
                then d2\<lparr>ai12_startstop := ai12_startstop d2 OR START_AI_INT\<rparr> else d2);
          s3 = (if start_src c = TRIG_INT then s\<lparr>inttrig := True\<rparr> else s);
          d4 = (if stop_src c = TRIG_NONE then d3\<lparr>ai_neverending := 1\<rparr> else d3);
          d5 = (if stop_src c = TRIG_COUNT then d4\<lparr>ai_neverending := 0\<rparr> else d4)
      in (d5, s3))"

text \<open>The back padding and the choice of DMA (lines 1569 to 1602).\<close>

definition ai_cmd_padding :: "pci9118_private \<Rightarrow> comedi_cmd \<Rightarrow> pci9118_private" where
  "ai_cmd_padding devpriv c =
     (let d0 = devpriv\<lparr>ai_add_front := 0, ai_add_back := 0\<rparr>
      in if master d0 \<noteq> 0 then
           (let d1 = d0\<lparr>usedma := 1\<rparr>;
                d2 = (if flags c AND TRIG_WAKE_EOS \<noteq> 0 \<and> scan_end_arg c = 1
                      then (let da = (if convert_src c = TRIG_NOW
                                      then d1\<lparr>ai_add_back := 1\<rparr> else d1)
                            in if convert_src c = TRIG_TIMER then da\<lparr>usedma := 0\<rparr> else da)
                      else d1);
                d3 = (if flags c AND TRIG_WAKE_EOS \<noteq> 0 \<and> scan_end_arg c AND 1 \<noteq> 0 \<and>
                         1 < scan_end_arg c
                      then (if scan_begin_src c = TRIG_FOLLOW
                            then d2\<lparr>usedma := 0\<rparr> else d2\<lparr>ai_add_back := 1\<rparr>)
                      else d2)
            in d3)
         else d0\<lparr>usedma := 0\<rparr>)"

text \<open>
  The front padding for the software sample-and-hold (lines 1608 to 1630).
  \<open>softsshdelay\<close> is an \<^verbatim>\<open>int\<close>; the division and the remainder by the
  unsigned \<open>convert_arg\<close> are unsigned.
\<close>

definition ai_cmd_softssh ::
  "boardtype \<Rightarrow> pci9118_private \<Rightarrow> comedi_cmd \<Rightarrow> fault + (pci9118_private \<times> comedi_cmd)"
where
  "ai_cmd_softssh this_board devpriv c =
     (if convert_src c = TRIG_NOW \<and> softsshdelay devpriv \<noteq> 0 then
        (let d1 = devpriv\<lparr>ai_add_front := 2\<rparr>;
             d2 = (if usedma d1 = 1 \<and> ai_add_back d1 = 1
                   then d1\<lparr>ai_add_front := ai_add_front d1 + 1, ai_add_back := 0\<rparr> else d1);
             c1 = (if convert_arg c < ai_ns_min this_board
                   then c\<lparr>convert_arg := ai_ns_min this_board\<rparr> else c)
         in if convert_arg c1 = 0 then Inl DivByZero
            else
              (let addchans = softsshdelay d2 div convert_arg c1;
                   addchans = (if softsshdelay d2 mod convert_arg c1 \<noteq> 0
                               then addchans + 1 else addchans);
                   d3 = (if ai_add_front d2 - 1 < addchans
                         then (let da = d2\<lparr>ai_add_front := addchans + 1\<rparr>
                               in if usedma da = 1 \<and>
                                     (ai_add_front da + chanlist_len c1 + ai_add_back da) AND 1 \<noteq> 0
                                  then da\<lparr>ai_add_front := ai_add_front da + 1\<rparr> else da)
                         else d2)
               in Inr (d3, c1)))
      else Inr (devpriv, c))"

text \<open>
  The timers and the acquisition mode (lines 1655 to 1696).  The result is
  \<open>Some\<close> of the early return code when the block returns, \<open>None\<close> when it
  falls through.
\<close>

definition ai_cmd_mode ::
  "boardtype \<Rightarrow> pci9118_private \<Rightarrow> comedi_subdevice
     \<Rightarrow> fault + (int option \<times> pci9118_private \<times> comedi_subdevice)"
where
  "ai_cmd_mode this_board devpriv s =
     (let r1 =
        (if (scan_begin_src (cmd s) = TRIG_FOLLOW \<or> scan_begin_src (cmd s) = TRIG_EXT \<or>
             scan_begin_src (cmd s) = TRIG_INT) \<and> convert_src (cmd s) = TRIG_TIMER
         then
           (let d = devpriv\<lparr>ai_do := (if scan_begin_src (cmd s) = TRIG_EXT then 4 else 1)\<rparr>
            in case pci9118_calc_divisors (ucast (ai_do d)) this_board s
                      (scan_begin_arg (cmd s)) (convert_arg (cmd s)) (ai_flags d)
                      (ai_n_realscanlen d) (ai_divisor1 d) (ai_divisor2 d) (ai_add_front d) of
                 Inl f \<Rightarrow> Inl f
               | Inr (t1, t2, dv1, dv2) \<Rightarrow>
                   Inr (d\<lparr>ai_divisor1 := dv1, ai_divisor2 := dv2\<rparr>,
                        s\<lparr>cmd := (cmd s)\<lparr>scan_begin_arg := t1, convert_arg := t2\<rparr>\<rparr>))
         else Inr (devpriv, s))
      in case r1 of
           Inl f \<Rightarrow> Inl f
         | Inr (d1, s1) \<Rightarrow>
             (let r2 =
                (if scan_begin_src (cmd s1) = TRIG_TIMER \<and>
                    (convert_src (cmd s1) = TRIG_TIMER \<or> convert_src (cmd s1) = TRIG_NOW)
                 then
                   (if usedma d1 = 0 then Inr (Some (- EIO), d1, s1)
                    else
                      (let d = d1\<lparr>ai_do := 2\<rparr>
                       in case pci9118_calc_divisors (ucast (ai_do d)) this_board s1
                                 (scan_begin_arg (cmd s1)) (convert_arg (cmd s1)) (ai_flags d)
                                 (ai_n_realscanlen d) (ai_divisor1 d) (ai_divisor2 d)
                                 (ai_add_front d) of
                            Inl f \<Rightarrow> Inl f
                          | Inr (t1, t2, dv1, dv2) \<Rightarrow>
                              Inr (None, d\<lparr>ai_divisor1 := dv1, ai_divisor2 := dv2\<rparr>,
                                   s1\<lparr>cmd := (cmd s1)\<lparr>scan_begin_arg := t1,
                                                        convert_arg := t2\<rparr>\<rparr>)))
                 else Inr (None, d1, s1))
              in case r2 of
                   Inl f \<Rightarrow> Inl f
                 | Inr (Some e, d2, s2) \<Rightarrow> Inr (Some e, d2, s2)
                 | Inr (None, d2, s2) \<Rightarrow>
                     (if scan_begin_src (cmd s2) = TRIG_FOLLOW \<and> convert_src (cmd s2) = TRIG_EXT
                      then Inr (None, d2\<lparr>ai_do := 3\<rparr>, s2)
                      else Inr (None, d2, s2))))"

text \<open>
  \<^verbatim>\<open>pci9118_ai_cmd(dev, s)\<close>: the return code, the private state and the
  subdevice, whose command the function adjusts in place.
\<close>

definition pci9118_ai_cmd ::
  "boardtype \<Rightarrow> pci9118_private \<Rightarrow> comedi_subdevice
     \<Rightarrow> fault + (int \<times> pci9118_private \<times> comedi_subdevice)"
where
  "pci9118_ai_cmd this_board devpriv s =
     (let (d1, s1) = ai_cmd_startstop devpriv s;
          d2 = ai_cmd_padding d1 (cmd s1)
      in case ai_cmd_softssh this_board d2 (cmd s1) of
           Inl f \<Rightarrow> Inl f
         | Inr (d3, c3) \<Rightarrow>
             (if chanlist_len c3 = 0 then Inl DivByZero
              else
                (let s3 = s1\<lparr>cmd := c3\<rparr>;
                     d4 = d3\<lparr>ai_n_realscanlen :=
                            (ai_add_front d3 + chanlist_len c3 + ai_add_back d3) *
                            (scan_end_arg c3 div chanlist_len c3)\<rparr>;
                     cl = (case chanlist c3 of None \<Rightarrow> [] | Some l \<Rightarrow> l)
                 in case check_channel_list this_board d4 s3 (chanlist_len c3) cl
                           (ai_add_front d4) (ai_add_back d4) of
                      Inl f \<Rightarrow> Inl f
                    | Inr ok \<Rightarrow>
                        (if ok = 0 then Inr (- EINVAL, d4, s3)
                         else
                           (case setup_channel_list d4 (chanlist_len c3) cl 0
                                   (ai_add_front d4) (ai_add_back d4) (ucast (usedma d4)) of
                              Inl f \<Rightarrow> Inl f
                            | Inr (ok', d5) \<Rightarrow>
                                (if ok' = 0 then Inr (- EINVAL, d5, s3)
                                 else
                                   (case ai_cmd_mode this_board d5 s3 of
                                      Inl f \<Rightarrow> Inl f
                                    | Inr (Some e, d6, s6) \<Rightarrow> Inr (e, d6, s6)
                                    | Inr (None, d6, s6) \<Rightarrow>
                                        (let d7 = d6\<lparr>AdControlReg := 0,
                                                     AdFunctionReg :=
                                                       AdFunction_PDTrg OR AdFunction_PETrg,
                                                     ai_act_scan := 0,
                                                     ai_act_dmapos := 0\<rparr>;
                                             s7 = s6\<lparr>cur_chan := 0\<rparr>
                                         in if usedma d7 \<noteq> 0
                                            then (case pci9118_ai_docmd_dma d7 s7 of
                                                    Inl f \<Rightarrow> Inl f
                                                  | Inr (ret, d8) \<Rightarrow> Inr (ret, d8, s7))
                                            else (let (ret, d8) = pci9118_ai_docmd_sampl d7
                                                  in Inr (ret, d8, s7))))))))))"

subsection \<open>Reset and attach\<close>

text \<open>
  \<^verbatim>\<open>pci9118_reset\<close> on the private state, and the state that
  \<^verbatim>\<open>pci9118_common_attach\<close> leaves: the zeroed structure of
  \<^verbatim>\<open>comedi_alloc_devpriv\<close>, reset, with the options written into it.
  \<open>pages\<close> is what \<^verbatim>\<open>__get_free_pages\<close> granted for the two DMA buffers:
  \<open>None\<close> when every order from 4 down to 0 was refused, otherwise the
  order granted, which the driver multiplies by the page size.
  \<open>softsshdelay\<close> is an \<^verbatim>\<open>int\<close> option whose sign selects the polarity of
  the hold signal.

  Modelled from the spec: \<^verbatim>\<open>PAGE_SIZE\<close> is a constant of the kernel, not
  under src/; the spec only says that the DMA buffers have a best-effort
  size.  4096 is the page size of the usual configurations.
\<close>

definition PAGE_SIZE :: u32 where "PAGE_SIZE = 4096"

definition zero_private :: pci9118_private where
  "zero_private = \<lparr> master = 0, usemux = 0, AdControlReg = 0, IntControlReg = 0,
     AdFunctionReg = 0, ai_neverending = 0, ai_do = 0, ai_act_scan = 0,
     ai_n_realscanlen = 0, ai_act_dmapos = 0, ai_add_front = 0, ai_add_back = 0,
     ai_flags = 0, ai12_startstop = 0, ai_divisor1 = 0, ai_divisor2 = 0,
     dma_doublebuf = 0, dma_actbuf = 0, dmabuf_size = (0, 0), dmabuf_use_size = (0, 0),
     exttrg_users = 0, usedma = 0, softsshdelay = 0, ai_maskerr = 0, ai_maskharderr = 0 \<rparr>"

definition pci9118_reset :: "pci9118_private \<Rightarrow> pci9118_private" where
  "pci9118_reset devpriv =
     devpriv\<lparr>IntControlReg := 0, exttrg_users := 0, AdControlReg := 0,
             AdFunctionReg := AdFunction_PDTrg OR AdFunction_PETrg\<rparr>"

definition pci9118_common_attach ::
  "u32 option \<times> u32 option \<Rightarrow> u32 \<Rightarrow> u32 \<Rightarrow> u32 \<Rightarrow> u32 \<Rightarrow> pci9118_private"
where
  "pci9118_common_attach pages master' ext_mux softsshdelay' hw_err_mask =
     (let d0 = pci9118_reset zero_private;
          d1 = (if master' \<noteq> 0
                then d0\<lparr>dmabuf_size :=
                         (case fst pages of None \<Rightarrow> 0 | Some n \<Rightarrow> PAGE_SIZE * n,
                          case snd pages of None \<Rightarrow> 0 | Some n \<Rightarrow> PAGE_SIZE * n),
                       dma_doublebuf := (if snd pages \<noteq> None then 1 else 0)\<rparr>
                else d0);
          d2 = d1\<lparr>master := (if master' \<noteq> 0 \<and> fst pages = None then 0 else master')\<rparr>;
          d3 = (if 0 < sint ext_mux
                then d2\<lparr>usemux :=
                       (let m = (if 256 < sint ext_mux then 256 else ext_mux)
                        in if 0 < sint softsshdelay' \<and> 128 < sint m then 128 else m)\<rparr>
                else d2\<lparr>usemux := 0\<rparr>);
          d4 = (if sint softsshdelay' < 0
                then d3\<lparr>softsshdelay := - softsshdelay'\<rparr>
                else d3\<lparr>softsshdelay := softsshdelay'\<rparr>)
      in d4\<lparr>ai_maskharderr := attach_maskharderr hw_err_mask\<rparr>)"

text \<open>
  The analog-input subdevice as attach leaves it when the interrupt is
  granted, with the size of the preallocated buffer of the comedi core.
\<close>

definition attached_subdevice :: "boardtype \<Rightarrow> u32 \<Rightarrow> comedi_cmd \<Rightarrow> comedi_subdevice" where
  "attached_subdevice this_board bufsz c =
     \<lparr> len_chanlist = n_aichanlist this_board, cmd = c, cur_chan = 0, events = 0,
       inttrig = False, prealloc_bufsz = bufsz \<rparr>"

subsection \<open>The compaction as a function of the sample stream\<close>

text \<open>
  What the spec says of the defragmentation, as a function on the raw
  stream: a cursor runs modulo the padded scan length \<open>raw\<close>, and a sample is
  kept when the cursor is in the window of the \<open>n\<close> real channels that
  follows the \<open>f\<close> front padding samples.  It is the reference that the loop
  of the driver is compared with.
\<close>

fun compact :: "nat \<Rightarrow> nat \<Rightarrow> nat \<Rightarrow> nat \<Rightarrow> 'a list \<Rightarrow> 'a list" where
  "compact f n raw p [] = []"
| "compact f n raw p (x # xs) =
     (if f \<le> p \<and> p < f + n then [x] else []) @ compact f n raw (Suc p mod raw) xs"

subsection \<open>Example states and commands\<close>

text \<open>
  A board attached with bus mastering and two DMA buffers of order 4, and one
  attached without bus mastering; no multiplexer, no software sample-and-hold,
  the default error mask.
\<close>

definition attached_master :: pci9118_private where
  "attached_master = pci9118_common_attach (Some 4, Some 4) 1 0 0 0"

definition attached_nodma :: pci9118_private where
  "attached_nodma = pci9118_common_attach (None, None) 0 0 0 0"

text \<open>Scans started by the external trigger, conversions started at once.\<close>

definition cmd_ext_now :: comedi_cmd where
  "cmd_ext_now = \<lparr> start_src = TRIG_NOW, start_arg = 0, scan_begin_src = TRIG_EXT,
     scan_begin_arg = 0, convert_src = TRIG_NOW, convert_arg = 10000,
     scan_end_src = TRIG_COUNT, scan_end_arg = 1, stop_src = TRIG_COUNT, stop_arg = 1,
     chanlist = Some [CR_PACK 0 0 0], chanlist_len = 1, flags = 0 \<rparr>"

text \<open>A timed scan of one channel with timed conversions.\<close>

definition cmd_timer_one :: comedi_cmd where
  "cmd_timer_one = \<lparr> start_src = TRIG_NOW, start_arg = 0, scan_begin_src = TRIG_TIMER,
     scan_begin_arg = 20000, convert_src = TRIG_TIMER, convert_arg = 5000,
     scan_end_src = TRIG_COUNT, scan_end_arg = 1, stop_src = TRIG_COUNT, stop_arg = 10,
     chanlist = Some [CR_PACK 0 0 0], chanlist_len = 1, flags = 0 \<rparr>"

text \<open>
  The spec's scenario A with an external start: two bipolar channels, timed
  conversions every 10000 ns, 100 scans.
\<close>

definition cmd_follow_timer :: comedi_cmd where
  "cmd_follow_timer = \<lparr> start_src = TRIG_EXT, start_arg = 0, scan_begin_src = TRIG_FOLLOW,
     scan_begin_arg = 0, convert_src = TRIG_TIMER, convert_arg = 10000,
     scan_end_src = TRIG_COUNT, scan_end_arg = 2, stop_src = TRIG_COUNT, stop_arg = 100,
     chanlist = Some [CR_PACK 0 0 0, CR_PACK 1 0 0], chanlist_len = 2, flags = 0 \<rparr>"

text \<open>
  A run of two channels with one padding sample before and one after each
  scan, the cursor on the back padding.
\<close>

definition padded_run :: pci9118_private where
  "padded_run = attached_master\<lparr>ai_add_front := 1, ai_add_back := 1, ai_act_dmapos := 3\<rparr>"

section \<open>Padding removal\<close>

subsection \<open>The reference compaction\<close>

lemma compact_append:
  "p < raw \<Longrightarrow> compact f n raw p (xs @ ys) =
     compact f n raw p xs @ compact f n raw ((p + length xs) mod raw) ys"
proof (induction xs arbitrary: p)
  case Nil
  then show ?case by simp
next
  case (Cons x xs)
  have lt: "Suc p mod raw < raw" using Cons.prems by simp
  have eq: "(Suc p mod raw + length xs) mod raw = (p + Suc (length xs)) mod raw"
    by (simp add: mod_add_left_eq)
  show ?case
    using Cons.IH [OF lt] eq by simp
qed

lemma compact_nths:
  "p < raw \<Longrightarrow> compact f n raw p xs =
     nths xs {i. f \<le> (p + i) mod raw \<and> (p + i) mod raw < f + n}"
proof (induction xs arbitrary: p)
  case Nil
  then show ?case by simp
next
  case (Cons x xs)
  have lt: "Suc p mod raw < raw" using Cons.prems by simp
  have eq: "\<And>i. (Suc p mod raw + i) mod raw = (p + Suc i) mod raw"
    by (simp add: mod_add_left_eq)
  have p: "p mod raw = p" using Cons.prems by simp
  show ?case
    unfolding compact.simps Cons.IH [OF lt] nths_Cons eq
    using p by simp
qed

lemma window_step:
  "(if f \<le> p \<and> p < f + n then 1 else 0) + (min (Suc p + m) (f + n) - max (Suc p) f)
     = min (p + Suc m) (f + n) - max p (f::nat)"
  by (auto simp: min_def max_def)

lemma compact_segment:
  "p + length xs \<le> raw \<Longrightarrow>
     length (compact f n raw p xs) = min (p + length xs) (f + n) - max p f"
proof (induction xs arbitrary: p)
  case Nil
  then show ?case by (simp add: min_def max_def)
next
  case (Cons x xs)
  show ?case
  proof (cases "Suc p < raw")
    case True
    then have m: "Suc p mod raw = Suc p" by simp
    have "Suc p + length xs \<le> raw" using Cons.prems by simp
    from Cons.IH [OF this] have
      "length (compact f n raw p (x # xs)) =
         (if f \<le> p \<and> p < f + n then 1 else 0) + (min (Suc p + length xs) (f + n) - max (Suc p) f)"
      by (simp add: m)
    then show ?thesis by (simp only: window_step length_Cons)
  next
    case False
    then have "length xs = 0" using Cons.prems by (simp only: length_Cons; arith)
    then have "xs = []" by simp
    then show ?thesis using Cons.prems by (auto simp: min_def max_def)
  qed
qed

lemma window_cycle:
  "p < raw \<Longrightarrow> f + n \<le> raw \<Longrightarrow>
     (min raw (f + n) - max p f) + (min p (f + n) - f) = (n::nat)"
  by (auto simp: min_def max_def)

lemma compact_cycle:
  assumes "p < raw" "length xs = raw" "f + n \<le> raw"
  shows "length (compact f n raw p xs) = n"
proof -
  have l1: "length (take (raw - p) xs) = raw - p" using assms by simp
  have l2: "length (drop (raw - p) xs) = p" using assms by simp
  have a: "length (compact f n raw p (take (raw - p) xs)) = min raw (f + n) - max p f"
    using compact_segment [of p "take (raw - p) xs" raw f n] assms l1 by simp
  have b: "length (compact f n raw 0 (drop (raw - p) xs)) = min p (f + n) - f"
    using compact_segment [of 0 "drop (raw - p) xs" raw f n] assms l2 by simp
  have "compact f n raw p (take (raw - p) xs @ drop (raw - p) xs) =
      compact f n raw p (take (raw - p) xs) @
      compact f n raw ((p + length (take (raw - p) xs)) mod raw) (drop (raw - p) xs)"
    by (rule compact_append [OF assms(1)])
  moreover have "(p + length (take (raw - p) xs)) mod raw = 0" using assms by simp
  ultimately have "length (compact f n raw p xs) =
      (min raw (f + n) - max p f) + (min p (f + n) - f)"
    using a b by simp
  then show ?thesis using window_cycle [OF assms(1) assms(3)] by simp
qed

lemma compact_cycles:
  assumes "p < raw" "f + n \<le> raw"
  shows "length xs = k * raw \<Longrightarrow> length (compact f n raw p xs) = k * n"
proof (induction k arbitrary: xs)
  case 0
  then show ?case by simp
next
  case (Suc k)
  have l1: "length (take raw xs) = raw" using Suc.prems by simp
  have l2: "length (drop raw xs) = k * raw" using Suc.prems by simp
  have "compact f n raw p (take raw xs @ drop raw xs) =
      compact f n raw p (take raw xs) @
      compact f n raw ((p + length (take raw xs)) mod raw) (drop raw xs)"
    by (rule compact_append [OF assms(1)])
  moreover have "(p + length (take raw xs)) mod raw = p" using l1 assms(1) by simp
  ultimately show ?case
    using compact_cycle [OF assms(1) l1 assms(2)] Suc.IH [OF l2] by simp
qed

subsection \<open>The loop of the driver\<close>

lemma unat_cursor_step:
  fixes pos r :: u32
  assumes "unat pos < unat r"
  shows "unat ((pos + 1) mod r) = Suc (unat pos) mod unat r"
proof -
  have "unat pos + unat (1 :: u32) < 2 ^ 32"
    using assms unsigned_less [of r, where 'a = nat] by simp
  then have "unat (pos + 1) = unat pos + unat (1 :: u32)"
    by (simp add: unat_add_lem [THEN iffD1])
  then show ?thesis by (simp add: unat_mod)
qed

lemma defragment_loop_compact:
  "unat start_pos = f \<Longrightarrow> unat stop_pos = f + n \<Longrightarrow> unat raw_scanlen = raw \<Longrightarrow>
   unat pos < raw \<Longrightarrow> j \<le> i \<Longrightarrow> i \<le> num \<Longrightarrow> num \<le> length buf \<Longrightarrow>
   \<exists>buf' pos'.
     defragment_loop start_pos stop_pos raw_scanlen num i j buf pos =
       Inr (j + length (compact f n raw (unat pos) (take (num - i) (drop i buf))), buf', pos')
     \<and> take (j + length (compact f n raw (unat pos) (take (num - i) (drop i buf)))) buf'
         = take j buf @ compact f n raw (unat pos) (take (num - i) (drop i buf))
     \<and> unat pos' = (unat pos + (num - i)) mod raw"
proof (induction start_pos stop_pos raw_scanlen num i j buf pos
    rule: defragment_loop.induct)
  case (1 start_pos stop_pos raw_scanlen num i j buf pos)
  show ?case
  proof (cases "i < num")
    case False
    then have "num - i = 0" by simp
    then show ?thesis using False "1.prems" by (simp add: defragment_loop.simps)
  next
    case True
    have nz: "raw_scanlen \<noteq> 0" using "1.prems" by auto
    have len: "\<not> length buf \<le> i" using True "1.prems" by simp
    have step: "unat ((pos + 1) mod raw_scanlen) = Suc (unat pos) mod raw"
      using unat_cursor_step [of pos raw_scanlen] "1.prems" by simp
    have lt: "unat ((pos + 1) mod raw_scanlen) < raw"
      using step "1.prems" by simp
    have win: "(start_pos \<le> pos \<and> pos < stop_pos) = (f \<le> unat pos \<and> unat pos < f + n)"
      using "1.prems" by (simp add: word_le_nat_alt word_less_nat_alt)
    have dr: "take (num - i) (drop i buf) = buf ! i # take (num - Suc i) (drop (Suc i) buf)"
      using True len by (simp add: Cons_nth_drop_Suc [symmetric] take_Suc_Cons [symmetric] Suc_diff_Suc del: take_Suc_Cons)
    have "(Suc (unat pos) mod raw + (num - Suc i)) mod raw = (Suc (unat pos) + (num - Suc i)) mod raw"
      by (rule mod_add_left_eq)
    moreover have "Suc (unat pos) + (num - Suc i) = unat pos + (num - i)"
      using True by arith
    ultimately have fin:
      "(Suc (unat pos) mod raw + (num - Suc i)) mod raw = (unat pos + (num - i)) mod raw"
      by (simp only:)
    show ?thesis
    proof (cases "start_pos \<le> pos \<and> pos < stop_pos")
      case w: True
      have ih: "\<exists>buf' pos'.
         defragment_loop start_pos stop_pos raw_scanlen num (Suc i) (Suc j) (buf[j := buf ! i])
             ((pos + 1) mod raw_scanlen) =
           Inr (Suc j + length (compact f n raw (unat ((pos + 1) mod raw_scanlen))
                  (take (num - Suc i) (drop (Suc i) (buf[j := buf ! i])))), buf', pos')
         \<and> take (Suc j + length (compact f n raw (unat ((pos + 1) mod raw_scanlen))
                  (take (num - Suc i) (drop (Suc i) (buf[j := buf ! i]))))) buf'
             = take (Suc j) (buf[j := buf ! i]) @ compact f n raw (unat ((pos + 1) mod raw_scanlen))
                  (take (num - Suc i) (drop (Suc i) (buf[j := buf ! i])))
         \<and> unat pos' = (unat ((pos + 1) mod raw_scanlen) + (num - Suc i)) mod raw"
        using "1.IH"(1) [OF True len nz w] "1.prems" True lt by simp
      have d: "drop (Suc i) (buf[j := buf ! i]) = drop (Suc i) buf"
        using "1.prems" by simp
      have t: "take (Suc j) (buf[j := buf ! i]) = take j buf @ [buf ! i]"
        using "1.prems" len by (simp add: take_Suc_conv_app_nth)
      from ih obtain buf' pos' where
        r: "defragment_loop start_pos stop_pos raw_scanlen num (Suc i) (Suc j) (buf[j := buf ! i])
             ((pos + 1) mod raw_scanlen) =
           Inr (Suc j + length (compact f n raw (Suc (unat pos) mod raw)
                  (take (num - Suc i) (drop (Suc i) buf))), buf', pos')"
        and tk: "take (Suc j + length (compact f n raw (Suc (unat pos) mod raw)
                  (take (num - Suc i) (drop (Suc i) buf)))) buf'
             = (take j buf @ [buf ! i]) @ compact f n raw (Suc (unat pos) mod raw)
                  (take (num - Suc i) (drop (Suc i) buf))"
        and up: "unat pos' = (unat pos + (num - i)) mod raw"
        unfolding d t step fin by blast
      have cur: "defragment_loop start_pos stop_pos raw_scanlen num i j buf pos =
          defragment_loop start_pos stop_pos raw_scanlen num (Suc i) (Suc j) (buf[j := buf ! i])
             ((pos + 1) mod raw_scanlen)"
        using w True len nz by (subst defragment_loop.simps) simp
      have k: "compact f n raw (unat pos) (take (num - i) (drop i buf)) =
          buf ! i # compact f n raw (Suc (unat pos) mod raw) (take (num - Suc i) (drop (Suc i) buf))"
        using w win unfolding dr by simp
      show ?thesis
        unfolding cur r k using tk up by simp
    next
      case w: False
      have ih: "\<exists>buf' pos'.
         defragment_loop start_pos stop_pos raw_scanlen num (Suc i) j buf
             ((pos + 1) mod raw_scanlen) =
           Inr (j + length (compact f n raw (unat ((pos + 1) mod raw_scanlen))
                  (take (num - Suc i) (drop (Suc i) buf))), buf', pos')
         \<and> take (j + length (compact f n raw (unat ((pos + 1) mod raw_scanlen))
                  (take (num - Suc i) (drop (Suc i) buf)))) buf'
             = take j buf @ compact f n raw (unat ((pos + 1) mod raw_scanlen))
                  (take (num - Suc i) (drop (Suc i) buf))
         \<and> unat pos' = (unat ((pos + 1) mod raw_scanlen) + (num - Suc i)) mod raw"
        using "1.IH"(2) [OF True len nz w] "1.prems" True lt by simp
      from ih obtain buf' pos' where
        r: "defragment_loop start_pos stop_pos raw_scanlen num (Suc i) j buf
             ((pos + 1) mod raw_scanlen) =
           Inr (j + length (compact f n raw (Suc (unat pos) mod raw)
                  (take (num - Suc i) (drop (Suc i) buf))), buf', pos')"
        and tk: "take (j + length (compact f n raw (Suc (unat pos) mod raw)
                  (take (num - Suc i) (drop (Suc i) buf)))) buf'
             = take j buf @ compact f n raw (Suc (unat pos) mod raw)
                  (take (num - Suc i) (drop (Suc i) buf))"
        and up: "unat pos' = (unat pos + (num - i)) mod raw"
        unfolding step fin by blast
      have wF: "(start_pos \<le> pos \<and> pos < stop_pos) = False" using w by simp
      have cur: "defragment_loop start_pos stop_pos raw_scanlen num i j buf pos =
          defragment_loop start_pos stop_pos raw_scanlen num (Suc i) j buf
             ((pos + 1) mod raw_scanlen)"
        using True len nz by (subst defragment_loop.simps) (simp only: wF if_True if_False)
      have k: "compact f n raw (unat pos) (take (num - i) (drop i buf)) =
          compact f n raw (Suc (unat pos) mod raw) (take (num - Suc i) (drop (Suc i) buf))"
        using w win unfolding dr by simp
      show ?thesis
        unfolding cur r k using tk up by simp
    qed
  qed
qed

lemma unat_word_of_nat_small: "x < 2 ^ 32 \<Longrightarrow> unat (word_of_nat x :: u32) = x"
  by (simp add: unat_of_nat)

lemma word_of_nat_eq_unat: "unat (w :: u32) = x \<Longrightarrow> w = word_of_nat x"
  by auto

lemma unat_raw_scanlen:
  fixes a b c :: u32
  assumes "unat a + unat b + unat c < 2 ^ 32"
  shows "unat (a + b) = unat a + unat b" and "unat (a + b + c) = unat a + unat b + unat c"
proof -
  show ab: "unat (a + b) = unat a + unat b"
    using assms by (simp add: unat_add_lem [THEN iffD1])
  show "unat (a + b + c) = unat a + unat b + unat c"
    using assms ab by (simp add: unat_add_lem [THEN iffD1])
qed

lemma defragment_dma_buffer_compact:
  assumes fits: "unat (ai_add_front devpriv) + unat (chanlist_len (cmd s)) +
                   unat (ai_add_back devpriv) < 2 ^ 32"
    and cursor: "unat (ai_act_dmapos devpriv) <
                   unat (ai_add_front devpriv) + unat (chanlist_len (cmd s)) +
                   unat (ai_add_back devpriv)"
    and len: "length buf < 2 ^ 32"
  shows "\<exists>buf'.
     defragment_dma_buffer devpriv s buf (word_of_nat (length buf)) =
       Inr (word_of_nat (length (compact (unat (ai_add_front devpriv)) (unat (chanlist_len (cmd s)))
              (unat (ai_add_front devpriv) + unat (chanlist_len (cmd s)) + unat (ai_add_back devpriv))
              (unat (ai_act_dmapos devpriv)) buf)),
            buf',
            devpriv\<lparr>ai_act_dmapos := word_of_nat ((unat (ai_act_dmapos devpriv) + length buf) mod
              (unat (ai_add_front devpriv) + unat (chanlist_len (cmd s)) + unat (ai_add_back devpriv)))\<rparr>)
     \<and> take (length (compact (unat (ai_add_front devpriv)) (unat (chanlist_len (cmd s)))
              (unat (ai_add_front devpriv) + unat (chanlist_len (cmd s)) + unat (ai_add_back devpriv))
              (unat (ai_act_dmapos devpriv)) buf)) buf'
         = compact (unat (ai_add_front devpriv)) (unat (chanlist_len (cmd s)))
              (unat (ai_add_front devpriv) + unat (chanlist_len (cmd s)) + unat (ai_add_back devpriv))
              (unat (ai_act_dmapos devpriv)) buf"
proof -
  let ?f = "unat (ai_add_front devpriv)" and ?n = "unat (chanlist_len (cmd s))"
  let ?raw = "unat (ai_add_front devpriv) + unat (chanlist_len (cmd s)) + unat (ai_add_back devpriv)"
  let ?p = "unat (ai_act_dmapos devpriv)"
  have num: "unat (word_of_nat (length buf) :: u32) = length buf"
    using len by (rule unat_word_of_nat_small)
  from defragment_loop_compact [of "ai_add_front devpriv" ?f
      "ai_add_front devpriv + chanlist_len (cmd s)" ?n
      "ai_add_front devpriv + chanlist_len (cmd s) + ai_add_back devpriv" ?raw
      "ai_act_dmapos devpriv" 0 0 "length buf" buf]
    unat_raw_scanlen [OF fits] cursor
  obtain buf' pos' where
    r: "defragment_loop (ai_add_front devpriv) (ai_add_front devpriv + chanlist_len (cmd s))
          (ai_add_front devpriv + chanlist_len (cmd s) + ai_add_back devpriv) (length buf) 0 0 buf
          (ai_act_dmapos devpriv) = Inr (length (compact ?f ?n ?raw ?p buf), buf', pos')"
    and tk: "take (length (compact ?f ?n ?raw ?p buf)) buf' = compact ?f ?n ?raw ?p buf"
    and up: "unat pos' = (?p + length buf) mod ?raw"
    by auto
  have "pos' = word_of_nat ((?p + length buf) mod ?raw)"
    using up by (rule word_of_nat_eq_unat)
  then show ?thesis
    using r tk by (simp add: defragment_dma_buffer_def num)
qed

lemma compact_length_le: "length (compact f n raw p xs) \<le> length xs"
  by (induction xs arbitrary: p) (auto simp: le_SucI)

lemma padded_run_fields:
  "ai_add_front padded_run = 1" "ai_add_back padded_run = 1" "ai_act_dmapos padded_run = 3"
  by (simp_all add: padded_run_def)

text \<open>
  Claim C1.  Let the padded scan be \<open>front\<close> padding samples, \<open>n\<close> real
  channels and \<open>back\<close> padding samples (a sum that fits 32 bits), and let the
  cursor \<open>p\<close> stand anywhere in that cycle.  On a buffer of \<open>k\<close> whole scans
  \<^verbatim>\<open>defragment_dma_buffer\<close> returns \<open>k * n\<close>, leaves at the front of the buffer
  exactly the samples whose place in the cycle is a real channel, in their
  order, and leaves the cursor where it was.  And for every stream cut into
  two blocks \<open>xs\<close> and \<open>ys\<close>: the call on \<open>xs\<close>, then the call on \<open>ys\<close> from
  the state the first call left, return compacted blocks whose concatenation
  is the compacted block of the single call on \<open>xs @ ys\<close>, and end in the same
  state, cursor included.
\<close>

theorem defragment_dma_buffer_position_independent:
  fixes devpriv :: pci9118_private and s :: comedi_subdevice
  defines "front \<equiv> unat (ai_add_front devpriv)"
    and "n \<equiv> unat (chanlist_len (cmd s))"
    and "back \<equiv> unat (ai_add_back devpriv)"
    and "p \<equiv> unat (ai_act_dmapos devpriv)"
  assumes fits: "front + n + back < 2 ^ 32"
    and cursor: "p < front + n + back"
    and scans: "length buf = k * (front + n + back)"
    and len: "length buf < 2 ^ 32"
    and parts: "length xs + length ys < 2 ^ 32"
  shows "(\<exists>buf'.
            defragment_dma_buffer devpriv s buf (word_of_nat (length buf)) =
              Inr (word_of_nat (k * n), buf', devpriv)
          \<and> take (k * n) buf' =
              nths buf {i. front \<le> (p + i) mod (front + n + back) \<and>
                           (p + i) mod (front + n + back) < front + n})
       \<and> (\<exists>j1 buf1 devpriv1 j2 buf2 devpriv2 j buf'.
            defragment_dma_buffer devpriv s xs (word_of_nat (length xs)) = Inr (j1, buf1, devpriv1)
          \<and> defragment_dma_buffer devpriv1 s ys (word_of_nat (length ys)) = Inr (j2, buf2, devpriv2)
          \<and> defragment_dma_buffer devpriv s (xs @ ys) (word_of_nat (length (xs @ ys))) =
              Inr (j, buf', devpriv2)
          \<and> take (unat j) buf' = take (unat j1) buf1 @ take (unat j2) buf2)"
proof
  let ?raw = "front + n + back"
  have fits': "unat (ai_add_front devpriv) + unat (chanlist_len (cmd s)) +
      unat (ai_add_back devpriv) < 2 ^ 32"
    using fits by (simp add: front_def n_def back_def)
  have cursor': "unat (ai_act_dmapos devpriv) <
      unat (ai_add_front devpriv) + unat (chanlist_len (cmd s)) + unat (ai_add_back devpriv)"
    using cursor by (simp add: front_def n_def back_def p_def)
  from defragment_dma_buffer_compact [OF fits' cursor' len]
  obtain buf' where
    r: "defragment_dma_buffer devpriv s buf (word_of_nat (length buf)) =
          Inr (word_of_nat (length (compact front n ?raw p buf)), buf',
               devpriv\<lparr>ai_act_dmapos := word_of_nat ((p + length buf) mod ?raw)\<rparr>)"
    and tk: "take (length (compact front n ?raw p buf)) buf' = compact front n ?raw p buf"
    unfolding front_def n_def back_def p_def by blast
  have cnt: "length (compact front n ?raw p buf) = k * n"
    using compact_cycles [OF cursor _ scans, of front n] by simp
  have "(p + length buf) mod ?raw = p"
    using scans cursor by simp
  then have same: "devpriv\<lparr>ai_act_dmapos := word_of_nat ((p + length buf) mod ?raw)\<rparr> = devpriv"
    by (simp add: p_def)
  show "\<exists>buf'.
            defragment_dma_buffer devpriv s buf (word_of_nat (length buf)) =
              Inr (word_of_nat (k * n), buf', devpriv)
          \<and> take (k * n) buf' =
              nths buf {i. front \<le> (p + i) mod ?raw \<and> (p + i) mod ?raw < front + n}"
    using r tk unfolding cnt same unfolding compact_nths [OF cursor] by blast
next
  let ?raw = "front + n + back"
  let ?p1 = "(p + length xs) mod ?raw"
  let ?d1 = "devpriv\<lparr>ai_act_dmapos := word_of_nat ?p1\<rparr>"
  have fits': "unat (ai_add_front devpriv) + unat (chanlist_len (cmd s)) +
      unat (ai_add_back devpriv) < 2 ^ 32"
    using fits by (simp add: front_def n_def back_def)
  have cursor': "unat (ai_act_dmapos devpriv) <
      unat (ai_add_front devpriv) + unat (chanlist_len (cmd s)) + unat (ai_add_back devpriv)"
    using cursor by (simp add: front_def n_def back_def p_def)
  have lx: "length xs < 2 ^ 32" and ly: "length ys < 2 ^ 32"
    and lxy: "length (xs @ ys) < 2 ^ 32"
    using parts by simp_all
  have "0 < ?raw" using cursor by arith
  then have p1: "?p1 < ?raw" by (rule mod_less_divisor)
  then have up1: "unat (word_of_nat ?p1 :: u32) = ?p1"
    using fits by (simp add: unat_of_nat)
  from defragment_dma_buffer_compact [OF fits' cursor' lx]
  obtain buf1 where
    r1: "defragment_dma_buffer devpriv s xs (word_of_nat (length xs)) =
          Inr (word_of_nat (length (compact front n ?raw p xs)), buf1, ?d1)"
    and t1: "take (length (compact front n ?raw p xs)) buf1 = compact front n ?raw p xs"
    unfolding front_def n_def back_def p_def by blast
  have fits1: "unat (ai_add_front ?d1) + unat (chanlist_len (cmd s)) +
      unat (ai_add_back ?d1) < 2 ^ 32"
    using fits' by simp
  have cursor1: "unat (ai_act_dmapos ?d1) <
      unat (ai_add_front ?d1) + unat (chanlist_len (cmd s)) + unat (ai_add_back ?d1)"
    using p1 up1 by (simp add: front_def n_def back_def)
  have fin: "(?p1 + length ys) mod ?raw = (p + length (xs @ ys)) mod ?raw"
    by (simp add: mod_add_left_eq add.assoc)
  from defragment_dma_buffer_compact [OF fits1 cursor1 ly]
  obtain buf2 where
    r2: "defragment_dma_buffer ?d1 s ys (word_of_nat (length ys)) =
          Inr (word_of_nat (length (compact front n ?raw ?p1 ys)), buf2,
               devpriv\<lparr>ai_act_dmapos := word_of_nat ((p + length (xs @ ys)) mod ?raw)\<rparr>)"
    and t2: "take (length (compact front n ?raw ?p1 ys)) buf2 = compact front n ?raw ?p1 ys"
    using up1 fin by (auto simp add: front_def n_def back_def)
  from defragment_dma_buffer_compact [OF fits' cursor' lxy]
  obtain buf' where
    r: "defragment_dma_buffer devpriv s (xs @ ys) (word_of_nat (length (xs @ ys))) =
          Inr (word_of_nat (length (compact front n ?raw p (xs @ ys))), buf',
               devpriv\<lparr>ai_act_dmapos := word_of_nat ((p + length (xs @ ys)) mod ?raw)\<rparr>)"
    and t: "take (length (compact front n ?raw p (xs @ ys))) buf' = compact front n ?raw p (xs @ ys)"
    unfolding front_def n_def back_def p_def by blast
  have u: "\<And>p zs. length zs < 2 ^ 32 \<Longrightarrow>
      unat (word_of_nat (length (compact front n ?raw p zs)) :: u32) =
        length (compact front n ?raw p zs)"
  proof -
    fix p zs
    assume "length zs < (2 :: nat) ^ 32"
    with compact_length_le [of front n ?raw p zs]
    have "length (compact front n ?raw p zs) < 2 ^ 32" by (rule le_less_trans)
    then show "unat (word_of_nat (length (compact front n ?raw p zs)) :: u32) =
        length (compact front n ?raw p zs)"
      by (rule unat_word_of_nat_small)
  qed
  have app: "compact front n ?raw p (xs @ ys) =
      compact front n ?raw p xs @ compact front n ?raw ?p1 ys"
    by (rule compact_append [OF cursor])
  have "take (unat (word_of_nat (length (compact front n ?raw p (xs @ ys))) :: u32)) buf' =
      take (unat (word_of_nat (length (compact front n ?raw p xs)) :: u32)) buf1 @
      take (unat (word_of_nat (length (compact front n ?raw ?p1 ys)) :: u32)) buf2"
    unfolding u [OF lx] u [OF ly] u [OF lxy] t t1 t2 by (rule app)
  with r1 r2 r show "\<exists>j1 buf1 devpriv1 j2 buf2 devpriv2 j buf'.
            defragment_dma_buffer devpriv s xs (word_of_nat (length xs)) = Inr (j1, buf1, devpriv1)
          \<and> defragment_dma_buffer devpriv1 s ys (word_of_nat (length ys)) = Inr (j2, buf2, devpriv2)
          \<and> defragment_dma_buffer devpriv s (xs @ ys) (word_of_nat (length (xs @ ys))) =
              Inr (j, buf', devpriv2)
          \<and> take (unat j) buf' = take (unat j1) buf1 @ take (unat j2) buf2"
    by blast
qed

theorem defragment_dma_buffer_position_independent_witness:
  "(\<exists>buf'.
      defragment_dma_buffer padded_run (attached_subdevice pci9118dg 65536 cmd_follow_timer)
        [10, 11, 12, 13, 14, 15, 16, 17] 8 = Inr (4, buf', padded_run)
    \<and> take 4 buf' = [12, 13, 16, 17])
   \<and> (\<exists>j1 buf1 devpriv1 j2 buf2 devpriv2 j buf'.
      defragment_dma_buffer padded_run (attached_subdevice pci9118dg 65536 cmd_follow_timer)
        [10, 11, 12] 3 = Inr (j1, buf1, devpriv1)
    \<and> defragment_dma_buffer devpriv1 (attached_subdevice pci9118dg 65536 cmd_follow_timer)
        [13, 14, 15, 16, 17] 5 = Inr (j2, buf2, devpriv2)
    \<and> defragment_dma_buffer padded_run (attached_subdevice pci9118dg 65536 cmd_follow_timer)
        [10, 11, 12, 13, 14, 15, 16, 17] 8 = Inr (j, buf', devpriv2)
    \<and> take (unat j) buf' = take (unat j1) buf1 @ take (unat j2) buf2)"
proof -
  let ?s = "attached_subdevice pci9118dg 65536 cmd_follow_timer"
  have n: "chanlist_len (cmd ?s) = 2"
    by (simp add: attached_subdevice_def cmd_follow_timer_def)
  from defragment_dma_buffer_position_independent
    [of padded_run ?s "[10, 11, 12, 13, 14, 15, 16, 17]" 2 "[10, 11, 12]" "[13, 14, 15, 16, 17]"]
  show ?thesis
    by (simp add: padded_run_fields n nths_Cons)
qed

section \<open>The channel list\<close>

lemma check_channel_loop_accepts:
  "n \<le> length cl \<Longrightarrow>
   (\<forall>i. k \<le> i \<and> i < n \<longrightarrow>
      (CR_AREF (cl ! i) = AREF_DIFF) = differencial \<and>
      (CR_RANGE (cl ! i) < PCI9118_BIPOLAR_RANGES) = bipolar \<and>
      \<not> (usemux devpriv = 0 \<and> differencial \<and> n_aichand this_board \<le> CR_CHAN (cl ! i))) \<Longrightarrow>
   check_channel_loop this_board devpriv cl differencial bipolar k n = Inr 1"
proof (induction this_board devpriv cl differencial bipolar k n rule: check_channel_loop.induct)
  case (1 this_board devpriv cl differencial bipolar i n)
  show ?case
  proof (cases "i < n")
    case False
    then show ?thesis by (subst check_channel_loop.simps) simp
  next
    case True
    have len: "\<not> length cl \<le> i" using True "1.prems"(1) by simp
    have ok: "(CR_AREF (cl ! i) = AREF_DIFF) = differencial"
      "(CR_RANGE (cl ! i) < PCI9118_BIPOLAR_RANGES) = bipolar"
      "\<not> (usemux devpriv = 0 \<and> differencial \<and> n_aichand this_board \<le> CR_CHAN (cl ! i))"
      using "1.prems"(2) True by auto
    have rest: "\<forall>j. Suc i \<le> j \<and> j < n \<longrightarrow>
      (CR_AREF (cl ! j) = AREF_DIFF) = differencial \<and>
      (CR_RANGE (cl ! j) < PCI9118_BIPOLAR_RANGES) = bipolar \<and>
      \<not> (usemux devpriv = 0 \<and> differencial \<and> n_aichand this_board \<le> CR_CHAN (cl ! j))"
      using "1.prems"(2) by auto
    have "check_channel_loop this_board devpriv cl differencial bipolar (Suc i) n = Inr 1"
      using "1.IH" [OF True len] ok "1.prems"(1) rest by blast
    then show ?thesis
      using True len ok by (subst check_channel_loop.simps) auto
  qed
qed

text \<open>
  Claim C9.  The loop of \<^verbatim>\<open>check_channel_list\<close> starts at index 1, so the
  channel of the first entry is never compared with the number of
  differential channels.  A list that has as many entries as \<open>n_chan\<close> says,
  is not empty, fits the queue with its padding, starts with a differential
  entry and has later entries that are differential, of the polarity of the
  first and on a differential channel of the board, is accepted: nothing is
  asked of the channel of the first entry, which may be at or beyond
  \<open>n_aichand\<close>, with or without a multiplexer.  In particular a list of one
  entry that fits the queue is accepted whatever the entry is.
\<close>

theorem check_channel_list_first_entry_unchecked:
  assumes len: "length cl = unat n_chan"
    and nonempty: "1 \<le> sint n_chan"
    and fits: "sint (frontadd + n_chan + backadd) \<le> sint (len_chanlist s)"
    and first: "CR_AREF (cl ! 0) = AREF_DIFF"
    and later: "\<forall>i. 1 \<le> i \<and> i < length cl \<longrightarrow>
        CR_AREF (cl ! i) = AREF_DIFF \<and>
        (CR_RANGE (cl ! i) < PCI9118_BIPOLAR_RANGES) =
          (CR_RANGE (cl ! 0) < PCI9118_BIPOLAR_RANGES) \<and>
        CR_CHAN (cl ! i) < n_aichand this_board"
  shows "check_channel_list this_board devpriv s n_chan cl frontadd backadd = Inr 1
       \<and> (sint (frontadd + 1 + backadd) \<le> sint (len_chanlist s) \<longrightarrow>
            (\<forall>e. check_channel_list this_board devpriv s 1 [e] frontadd backadd = Inr 1))"
proof
  have ne: "cl \<noteq> []"
  proof
    assume "cl = []"
    then have "unat n_chan = 0" using len by simp
    then have "n_chan = 0" by (simp add: unat_eq_0)
    then show False using nonempty by simp
  qed
  have "check_channel_loop this_board devpriv cl (CR_AREF (cl ! 0) = AREF_DIFF)
      (CR_RANGE (cl ! 0) < PCI9118_BIPOLAR_RANGES) 1 (unat n_chan) = Inr 1"
    by (rule check_channel_loop_accepts) (use len first later in \<open>auto simp: not_le\<close>)
  then show "check_channel_list this_board devpriv s n_chan cl frontadd backadd = Inr 1"
    using nonempty fits ne by (simp add: check_channel_list_def not_less)
next
  show "sint (frontadd + 1 + backadd) \<le> sint (len_chanlist s) \<longrightarrow>
      (\<forall>e. check_channel_list this_board devpriv s 1 [e] frontadd backadd = Inr 1)"
    by (simp add: check_channel_list_def not_less check_channel_loop.simps)
qed

theorem check_channel_list_first_entry_unchecked_witness:
  "n_aichand pci9118dg \<le> CR_CHAN (CR_PACK 12 0 AREF_DIFF)
   \<and> usemux attached_master = 0
   \<and> check_channel_list pci9118dg attached_master
        (attached_subdevice pci9118dg 65536 cmd_follow_timer) 2
        [CR_PACK 12 0 AREF_DIFF, CR_PACK 3 1 AREF_DIFF] 0 0 = Inr 1
   \<and> check_channel_list pci9118dg attached_master
        (attached_subdevice pci9118dg 65536 cmd_follow_timer) 1
        [CR_PACK 12 0 AREF_DIFF] 0 0 = Inr 1"
proof -
  let ?s = "attached_subdevice pci9118dg 65536 cmd_follow_timer"
  let ?cl = "[CR_PACK 12 0 AREF_DIFF, CR_PACK 3 1 AREF_DIFF]"
  have e0: "CR_AREF (CR_PACK 12 0 AREF_DIFF) = AREF_DIFF"
    "CR_RANGE (CR_PACK 12 0 AREF_DIFF) = 0" "CR_CHAN (CR_PACK 12 0 AREF_DIFF) = 12"
    by (simp_all add: CR_AREF_def CR_RANGE_def CR_CHAN_def CR_PACK_def AREF_DIFF_def)
  have e1: "CR_AREF (CR_PACK 3 1 AREF_DIFF) = AREF_DIFF"
    "CR_RANGE (CR_PACK 3 1 AREF_DIFF) = 1" "CR_CHAN (CR_PACK 3 1 AREF_DIFF) = 3"
    by (simp_all add: CR_AREF_def CR_RANGE_def CR_CHAN_def CR_PACK_def AREF_DIFF_def)
  have b: "n_aichand pci9118dg = 8" "len_chanlist ?s = 255"
    by (simp_all add: pci9118dg_def attached_subdevice_def PCI9118_CHANLEN_def)
  have later: "\<forall>i. 1 \<le> i \<and> i < length ?cl \<longrightarrow>
        CR_AREF (?cl ! i) = AREF_DIFF \<and>
        (CR_RANGE (?cl ! i) < PCI9118_BIPOLAR_RANGES) =
          (CR_RANGE (?cl ! 0) < PCI9118_BIPOLAR_RANGES) \<and>
        CR_CHAN (?cl ! i) < n_aichand pci9118dg"
    by (auto simp: e0 e1 b PCI9118_BIPOLAR_RANGES_def less_Suc_eq)
  have u: "usemux attached_master = 0"
    by (simp add: attached_master_def pci9118_common_attach_def pci9118_reset_def
        zero_private_def Let_def)
  from check_channel_list_first_entry_unchecked
    [of ?cl 2 0 0 ?s pci9118dg attached_master, OF _ _ _ _ later]
  show ?thesis
    by (simp add: e0 b u)
qed

section \<open>The pacer divisors\<close>

lemma nearest_250: "cascade_divider 250 ns True = (ns + 124) div 250"
proof -
  define q r where "q = ns div 250" and "r = ns mod 250"
  have ns: "ns = q * 250 + r" and r: "r < 250"
    by (simp_all add: q_def r_def)
  have d: "ns div 250 = q" by (simp add: q_def)
  have u: "(ns + 250 - 1) div 250 = (if r = 0 then q else Suc q)"
    using r by (auto simp: ns intro!: div_nat_eqI)
  have c: "(ns + 124) div 250 = (if r < 126 then q else Suc q)"
    using r by (auto simp: ns intro!: div_nat_eqI)
  have "cascade_divider 250 ns True =
      (if (ns + 250 - 1) div 250 * 250 - ns < ns - ns div 250 * 250
       then (ns + 250 - 1) div 250 else ns div 250)"
    by (simp add: cascade_divider_def Let_def)
  also have "\<dots> = (ns + 124) div 250"
    unfolding d u c using r by (auto simp: ns)
  finally show ?thesis .
qed

lemma nearest_mono: "a \<le> b \<Longrightarrow> (a + 124) div 250 \<le> (b + 124) div (250::nat)"
  by (simp add: div_le_mono)

lemma nearest_bound:
  assumes "ns < 2 ^ 32"
  shows "(ns + 124) div 250 * 250 < (2::nat) ^ 32"
proof -
  have "ns + 124 \<le> 4294967419" using assms by simp
  then have "(ns + 124) div 250 \<le> 4294967419 div 250" by (rule div_le_mono)
  then have "(ns + 124) div 250 \<le> 17179869" by simp
  then show ?thesis by simp
qed

lemma nearest_ge: "k * 250 \<le> ns \<Longrightarrow> k * 250 \<le> (ns + 124) div 250 * (250::nat)"
proof -
  assume "k * 250 \<le> ns"
  then have "k * 250 div 250 \<le> (ns + 124) div 250"
    by (intro div_le_mono) simp
  then show ?thesis by simp
qed

lemma boardtypes_timing:
  "this_board \<in> set boardtypes \<Longrightarrow>
     (ai_ns_min this_board = 3000 \<and> ai_pacer_min this_board = 12) \<or>
     (ai_ns_min this_board = 10000 \<and> ai_pacer_min this_board = 40)"
  by (auto simp: boardtypes_def pci9118dg_def pci9118hg_def pci9118hr_def)

lemma unat_lt_2p32: "unat (w :: u32) < 2 ^ 32"
  using unsigned_less [of w, where 'a = nat] by simp

lemma cascade_nearest_period:
  assumes "round_mode AND TRIG_ROUND_MASK = TRIG_ROUND_NEAREST"
  shows "\<exists>d1 d2 t. i8253_cascade_ns_to_timer I8254_OSC_BASE_4MHZ a b ns round_mode = (d1, d2, t)
           \<and> unat t = (unat ns + 124) div 250 * 250"
proof -
  have "unat ns < 2 ^ 32" by (rule unat_lt_2p32)
  then have "(unat ns + 124) div 250 * 250 < 2 ^ 32" by (rule nearest_bound)
  then have u: "unat (word_of_nat ((unat ns + 124) div 250 * 250) :: u32) =
      (unat ns + 124) div 250 * 250"
    by (rule unat_word_of_nat_small)
  have "i8253_cascade_ns_to_timer I8254_OSC_BASE_4MHZ a b ns round_mode =
      (word_of_nat ((unat ns + 124) div 250), 1, word_of_nat ((unat ns + 124) div 250 * 250))"
    unfolding i8253_cascade_ns_to_timer_def I8254_OSC_BASE_4MHZ_def Let_def
    using assms by (simp add: nearest_250 del: of_nat_mult)
  then show ?thesis using u by blast
qed

lemma unat_clamp_min:
  fixes t m :: u32
  shows "unat (if t < m then m else t) = max (unat t) (unat m)"
  by (simp add: word_less_nat_alt max_def)

lemma calc_divisors_single_timer:
  assumes "mode = 1 \<or> mode = 4"
  shows "\<exists>d1 d2 t. pci9118_calc_divisors mode this_board s tim1 tim2 flgs chans div1 div2 front =
             Inr (tim1, t, d1, d2)
           \<and> unat t = (max (unat tim2) (unat (ai_ns_min this_board)) + 124) div 250 * 250"
proof -
  have "(flgs AND TRIG_ROUND_NEAREST) AND TRIG_ROUND_MASK = TRIG_ROUND_NEAREST"
    by (simp add: TRIG_ROUND_NEAREST_def)
  from cascade_nearest_period [OF this, of div1 div2
      "if tim2 < ai_ns_min this_board then ai_ns_min this_board else tim2"]
  obtain d1 d2 t where
    c: "i8253_cascade_ns_to_timer I8254_OSC_BASE_4MHZ div1 div2
          (if tim2 < ai_ns_min this_board then ai_ns_min this_board else tim2)
          (flgs AND TRIG_ROUND_NEAREST) = (d1, d2, t)"
    and t: "unat t = (unat (if tim2 < ai_ns_min this_board then ai_ns_min this_board else tim2)
               + 124) div 250 * 250"
    by blast
  show ?thesis
    using assms c t unfolding unat_clamp_min
    by (auto simp: pci9118_calc_divisors_def Let_def)
qed

lemma unat_div_250: "unat (t div (250 :: u32)) = unat t div 250"
  by (simp add: unat_div)

lemma calc_divisors_dual_timer:
  assumes "this_board \<in> set boardtypes"
  shows "\<exists>t1 d1 d2 t. pci9118_calc_divisors 2 this_board s tim1 tim2 flgs chans div1 div2 front =
             Inr (t1, t, d1, d2)
           \<and> unat t = max (max (unat tim2) (unat (ai_ns_min this_board)) div 250)
                        (unat (ai_pacer_min this_board)) * 250"
proof -
  let ?t2 = "if tim2 < ai_ns_min this_board then ai_ns_min this_board else tim2"
  let ?q = "?t2 div I8254_OSC_BASE_4MHZ"
  let ?d1 = "if ?q < ai_pacer_min this_board then ai_pacer_min this_board else ?q"
  have q: "unat ?q = max (unat tim2) (unat (ai_ns_min this_board)) div 250"
    unfolding I8254_OSC_BASE_4MHZ_def unat_div_250 unat_clamp_min ..
  have d1: "unat ?d1 = max (max (unat tim2) (unat (ai_ns_min this_board)) div 250)
      (unat (ai_pacer_min this_board))"
    unfolding unat_clamp_min q ..
  have pm: "unat (ai_pacer_min this_board) = 12 \<or> unat (ai_pacer_min this_board) = 40"
    using boardtypes_timing [OF assms] by auto
  then have "0 < unat ?d1"
    unfolding d1 by (auto simp: max_def)
  then have nz: "?d1 \<noteq> 0"
    by auto
  have "unat ?t2 < 2 ^ 32" by (rule unat_lt_2p32)
  moreover have "unat ?t2 div 250 * 250 \<le> unat ?t2"
    by (rule div_times_less_eq_dividend)
  ultimately have "max (unat tim2) (unat (ai_ns_min this_board)) div 250 * 250 < 2 ^ 32"
    unfolding unat_clamp_min by (rule le_less_trans [rotated])
  then have "unat ?d1 * 250 < 2 ^ 32"
    using pm unfolding d1 by (auto simp: max_def split: if_splits)
  then have "unat (?d1 * 250) = unat ?d1 * 250"
    by (simp add: unat_mult_lem [THEN iffD1])
  then have "unat (?d1 * I8254_OSC_BASE_4MHZ) =
      max (max (unat tim2) (unat (ai_ns_min this_board)) div 250)
        (unat (ai_pacer_min this_board)) * 250"
    unfolding d1 by (simp add: I8254_OSC_BASE_4MHZ_def)
  then show ?thesis
    using nz by (simp add: pci9118_calc_divisors_def Let_def)
qed

lemma boardtypes_ns_min:
  "this_board \<in> set boardtypes \<Longrightarrow>
     (unat (ai_ns_min this_board) = 12 * 250 \<and> unat (ai_pacer_min this_board) = 12) \<or>
     (unat (ai_ns_min this_board) = 40 * 250 \<and> unat (ai_pacer_min this_board) = 40)"
  using boardtypes_timing [of this_board] by auto

lemma clamp_max: "(if (a :: u32) < b then b else a) = max a b"
  by (auto simp: max_def)

lemma unat_mult3_250:
  fixes a b :: u32
  assumes "unat a * unat b * 250 < 2 ^ 32"
  shows "unat (a * b * 250) = unat a * unat b * 250"
proof -
  have "unat a * unat b \<le> unat a * unat b * 250" by simp
  then have ab: "unat a * unat b < 2 ^ 32" using assms by (rule le_less_trans)
  then have u: "unat (a * b) = unat a * unat b"
    by (simp add: unat_mult_lem [THEN iffD1])
  have "unat (a * b) * unat (250 :: u32) < 2 ^ 32"
    using assms unfolding u by simp
  then have "unat (a * b * 250) = unat (a * b) * unat (250 :: u32)"
    by (simp add: unat_mult_lem [THEN iffD1])
  then show ?thesis unfolding u by simp
qed

lemma scan_period_mono:
  fixes d q q' l :: u32
  assumes q: "q \<le> q'"
    and fit: "unat d * unat q' * 250 < 2 ^ 32"
  shows "d * max q l * 250 \<le> d * max q' l * 250"
proof (cases "q' \<le> l")
  case True
  then have "max q l = l" "max q' l = l" using q by (auto simp: max_def)
  then show ?thesis by simp
next
  case False
  then have m': "max q' l = q'" by (simp add: max_def)
  have le: "max q l \<le> q'" using q False by (auto simp: max_def)
  then have "unat (max q l) \<le> unat q'" by (simp add: word_le_nat_alt)
  then have le2: "unat d * unat (max q l) * 250 \<le> unat d * unat q' * 250"
    by (intro mult_le_mono) simp_all
  then have "unat d * unat (max q l) * 250 < 2 ^ 32" using fit by (rule le_less_trans)
  then have a: "unat (d * max q l * 250) = unat d * unat (max q l) * 250"
    by (rule unat_mult3_250)
  have b: "unat (d * q' * 250) = unat d * unat q' * 250"
    using fit by (rule unat_mult3_250)
  show ?thesis
    unfolding m' word_le_nat_alt a b by (rule le2)
qed

lemma calc_divisors_dual_scan:
  assumes board: "this_board \<in> set boardtypes"
    and le: "tim1 \<le> tim1'"
  shows "\<exists>t1 t2 d1 d2 t1' d2'.
      pci9118_calc_divisors 2 this_board s tim1 tim2 flgs chans div1 div2 front =
        Inr (t1, t2, d1, d2)
    \<and> pci9118_calc_divisors 2 this_board s tim1' tim2 flgs chans div1 div2 front =
        Inr (t1', t2, d1, d2')
    \<and> t1 \<le> t1'"
proof -
  let ?d1 = "max (max tim2 (ai_ns_min this_board) div I8254_OSC_BASE_4MHZ) (ai_pacer_min this_board)"
  let ?l = "if convert_src (cmd s) = TRIG_NOW \<and> front = 0 then max chans (chans + 2) else chans"
  let ?q = "tim1 div I8254_OSC_BASE_4MHZ div ?d1"
  let ?q' = "tim1' div I8254_OSC_BASE_4MHZ div ?d1"
  have pm: "ai_pacer_min this_board = 12 \<or> ai_pacer_min this_board = 40"
    using boardtypes_timing [OF board] by auto
  have "ai_pacer_min this_board \<le> ?d1" by simp
  then have "ai_pacer_min this_board = 0" if "?d1 = 0"
    using that by simp
  then have nz: "?d1 \<noteq> 0" using pm by auto
  have run: "pci9118_calc_divisors 2 this_board s t tim2 flgs chans div1 div2 front =
      Inr (?d1 * max (t div I8254_OSC_BASE_4MHZ div ?d1) ?l * I8254_OSC_BASE_4MHZ,
           ?d1 * I8254_OSC_BASE_4MHZ, ?d1, max (t div I8254_OSC_BASE_4MHZ div ?d1) ?l)" for t
    using nz unfolding pci9118_calc_divisors_def Let_def clamp_max
    by (simp add: max.assoc)
  have "unat tim1 \<le> unat tim1'" using le by (simp add: word_le_nat_alt)
  then have "unat tim1 div 250 div unat ?d1 \<le> unat tim1' div 250 div unat ?d1"
    by (intro div_le_mono)
  then have qq: "?q \<le> ?q'"
    by (simp add: word_le_nat_alt unat_div I8254_OSC_BASE_4MHZ_def)
  have "unat ?d1 * unat ?q' \<le> unat tim1' div 250"
    by (simp add: unat_div I8254_OSC_BASE_4MHZ_def)
  then have "unat ?d1 * unat ?q' * 250 \<le> unat tim1' div 250 * 250"
    by (rule mult_le_mono1)
  also have "\<dots> \<le> unat tim1'" by (rule div_times_less_eq_dividend)
  also have "\<dots> < 2 ^ 32" by (rule unat_lt_2p32)
  finally have fit: "unat ?d1 * unat ?q' * 250 < 2 ^ 32" .
  have "?d1 * max ?q ?l * 250 \<le> ?d1 * max ?q' ?l * 250"
    using qq fit by (rule scan_period_mono)
  then have "?d1 * max ?q ?l * I8254_OSC_BASE_4MHZ \<le> ?d1 * max ?q' ?l * I8254_OSC_BASE_4MHZ"
    by (simp add: I8254_OSC_BASE_4MHZ_def)
  with run [of tim1] run [of tim1'] show ?thesis by blast
qed

text \<open>
  Claim C5.  For a board of the table, in each of the modes 1, 2 and 4 in
  which \<^verbatim>\<open>pci9118_ai_cmd\<close> calls \<^verbatim>\<open>pci9118_calc_divisors\<close>, the function
  returns, the convert period it realises does not decrease when the
  requested convert period grows (the requested scan period and the other
  arguments may be anything), and the realised convert period is at least
  the minimal sample period \<open>ai_ns_min\<close> of the board.  The scan period it
  returns does not decrease either when the requested scan period grows and
  the requested convert period stays, and the realised convert period does
  not depend on the requested scan period.  In the modes 1 and 4 the convert
  period comes from \<open>i8253_cascade_ns_to_timer\<close>, modelled from the spec.
\<close>

theorem calc_divisors_monotone:
  assumes board: "this_board \<in> set boardtypes"
    and mode: "mode = 1 \<or> mode = 2 \<or> mode = 4"
    and le: "tim2 \<le> tim2'"
    and le1: "tim1 \<le> tim1''"
  shows "\<exists>t1 t2 d1 d2 t1' t2' d1' d2' t1'' t2'' d1'' d2''.
      pci9118_calc_divisors mode this_board s tim1 tim2 flgs chans div1 div2 front =
        Inr (t1, t2, d1, d2)
    \<and> pci9118_calc_divisors mode this_board s tim1' tim2' flgs chans div1 div2 front =
        Inr (t1', t2', d1', d2')
    \<and> pci9118_calc_divisors mode this_board s tim1'' tim2 flgs chans div1 div2 front =
        Inr (t1'', t2'', d1'', d2'')
    \<and> t2 \<le> t2' \<and> ai_ns_min this_board \<le> t2 \<and> t2'' = t2 \<and> t1 \<le> t1''"
proof (cases "mode = 2")
  case True
  let ?m = "unat (ai_ns_min this_board)" and ?p = "unat (ai_pacer_min this_board)"
  from calc_divisors_dual_scan [OF board le1, of s tim2 flgs chans div1 div2 front]
  obtain t1 d1 d2 t2 t1'' d2'' where
    a: "pci9118_calc_divisors 2 this_board s tim1 tim2 flgs chans div1 div2 front =
          Inr (t1, t2, d1, d2)"
    and c: "pci9118_calc_divisors 2 this_board s tim1'' tim2 flgs chans div1 div2 front =
          Inr (t1'', t2, d1, d2'')"
    and scan: "t1 \<le> t1''"
    by blast
  from calc_divisors_dual_timer [OF board, of s tim1 tim2 flgs chans div1 div2 front] a
  have ta: "unat t2 = max (max (unat tim2) ?m div 250) ?p * 250"
    by auto
  from calc_divisors_dual_timer [OF board, of s tim1' tim2' flgs chans div1 div2 front]
  obtain t1' d1' d2' t2' where
    b: "pci9118_calc_divisors 2 this_board s tim1' tim2' flgs chans div1 div2 front =
          Inr (t1', t2', d1', d2')"
    and tb: "unat t2' = max (max (unat tim2') ?m div 250) ?p * 250"
    by blast
  have "unat tim2 \<le> unat tim2'" using le by (simp add: word_le_nat_alt)
  then have "max (unat tim2) ?m div 250 \<le> max (unat tim2') ?m div 250"
    by (intro div_le_mono max.mono) simp_all
  then have "unat t2 \<le> unat t2'"
    unfolding ta tb by (intro mult_le_mono1 max.mono) simp_all
  then have mono: "t2 \<le> t2'" by (simp add: word_le_nat_alt)
  have "?m \<le> ?p * 250" using boardtypes_ns_min [OF board] by auto
  also have "\<dots> \<le> unat t2" unfolding ta by (intro mult_le_mono1) simp
  finally have "ai_ns_min this_board \<le> t2" by (simp add: word_le_nat_alt)
  with a b c mono scan True show ?thesis by blast
next
  case False
  then have m: "mode = 1 \<or> mode = 4" using mode by blast
  let ?m = "unat (ai_ns_min this_board)"
  from calc_divisors_single_timer [OF m, of this_board s tim1 tim2 flgs chans div1 div2 front]
  obtain d1 d2 t2 where
    a: "pci9118_calc_divisors mode this_board s tim1 tim2 flgs chans div1 div2 front =
          Inr (tim1, t2, d1, d2)"
    and ta: "unat t2 = (max (unat tim2) ?m + 124) div 250 * 250"
    by blast
  from calc_divisors_single_timer [OF m, of this_board s tim1' tim2' flgs chans div1 div2 front]
  obtain d1' d2' t2' where
    b: "pci9118_calc_divisors mode this_board s tim1' tim2' flgs chans div1 div2 front =
          Inr (tim1', t2', d1', d2')"
    and tb: "unat t2' = (max (unat tim2') ?m + 124) div 250 * 250"
    by blast
  from calc_divisors_single_timer [OF m, of this_board s tim1'' tim2 flgs chans div1 div2 front]
  obtain d1'' d2'' t2'' where
    c: "pci9118_calc_divisors mode this_board s tim1'' tim2 flgs chans div1 div2 front =
          Inr (tim1'', t2'', d1'', d2'')"
    and tc: "unat t2'' = (max (unat tim2) ?m + 124) div 250 * 250"
    by blast
  have same: "t2'' = t2"
    using ta tc by (simp add: word_unat_eq_iff)
  have "unat tim2 \<le> unat tim2'" using le by (simp add: word_le_nat_alt)
  then have "max (unat tim2) ?m \<le> max (unat tim2') ?m"
    by (intro max.mono) simp_all
  then have "unat t2 \<le> unat t2'"
    unfolding ta tb by (intro mult_le_mono1 nearest_mono)
  then have mono: "t2 \<le> t2'" by (simp add: word_le_nat_alt)
  obtain k where k: "?m = k * 250"
    using boardtypes_ns_min [OF board] by blast
  have "k * 250 \<le> max (unat tim2) ?m" unfolding k by simp
  then have "k * 250 \<le> unat t2" unfolding ta by (rule nearest_ge)
  then have "ai_ns_min this_board \<le> t2" unfolding k [symmetric] by (simp add: word_le_nat_alt)
  with a b c mono same le1 show ?thesis by blast
qed

text \<open>
  Claim C4.  In mode 2, for a board of the table and all other arguments,
  \<^verbatim>\<open>pci9118_calc_divisors\<close> returns: divisor 1 is the convert period, raised
  to the minimal sample period of the board, divided by the clock base, and
  raised to the minimal pacer value; divisor 2 is the requested scan period
  divided by the clock base and by divisor 1, raised to the channel count,
  and raised to the channel count plus 2 when the conversions start at once
  and there is no front padding; the realised convert period is divisor 1
  times the clock base, a product that does not wrap; the realised scan
  period is the product of the two divisors and the clock base.
\<close>

theorem calc_divisors_mode2:
  assumes board: "this_board \<in> set boardtypes"
  shows "\<exists>d1 d2.
      pci9118_calc_divisors 2 this_board s tim1 tim2 flgs chans div1 div2 chnsshfront =
        Inr (d1 * d2 * I8254_OSC_BASE_4MHZ, d1 * I8254_OSC_BASE_4MHZ, d1, d2)
    \<and> d1 = max (max tim2 (ai_ns_min this_board) div I8254_OSC_BASE_4MHZ) (ai_pacer_min this_board)
    \<and> d2 = (if convert_src (cmd s) = TRIG_NOW \<and> chnsshfront = 0
             then max (max (tim1 div I8254_OSC_BASE_4MHZ div d1) chans) (chans + 2)
             else max (tim1 div I8254_OSC_BASE_4MHZ div d1) chans)
    \<and> ai_pacer_min this_board \<le> d1
    \<and> chans \<le> d2
    \<and> (if convert_src (cmd s) = TRIG_NOW \<and> chnsshfront = 0 then chans + 2 \<le> d2 else True)
    \<and> unat (d1 * I8254_OSC_BASE_4MHZ) = unat d1 * unat I8254_OSC_BASE_4MHZ"
proof -
  let ?d1 = "max (max tim2 (ai_ns_min this_board) div I8254_OSC_BASE_4MHZ) (ai_pacer_min this_board)"
  let ?q = "max (tim1 div I8254_OSC_BASE_4MHZ div ?d1) chans"
  let ?d2 = "if convert_src (cmd s) = TRIG_NOW \<and> chnsshfront = 0 then max ?q (chans + 2) else ?q"
  have pm: "ai_pacer_min this_board = 12 \<or> ai_pacer_min this_board = 40"
    using boardtypes_timing [OF board] by auto
  have ged1: "ai_pacer_min this_board \<le> ?d1" by simp
  then have "ai_pacer_min this_board = 0" if "?d1 = 0"
    using that by simp
  then have nz: "?d1 \<noteq> 0" using pm by auto
  have run: "pci9118_calc_divisors 2 this_board s tim1 tim2 flgs chans div1 div2 chnsshfront =
      Inr (?d1 * ?d2 * I8254_OSC_BASE_4MHZ, ?d1 * I8254_OSC_BASE_4MHZ, ?d1, ?d2)"
    using nz unfolding pci9118_calc_divisors_def Let_def clamp_max by simp
  have "chans \<le> ?q" by simp
  then have ge: "chans \<le> ?d2" by (simp add: max.coboundedI1)
  have ge2: "if convert_src (cmd s) = TRIG_NOW \<and> chnsshfront = 0 then chans + 2 \<le> ?d2 else True"
    by simp
  have m1: "unat (max tim2 (ai_ns_min this_board) div I8254_OSC_BASE_4MHZ) * 250
      \<le> unat (max tim2 (ai_ns_min this_board))"
    by (simp add: I8254_OSC_BASE_4MHZ_def unat_div)
  have "unat ?d1 * 250 < 2 ^ 32"
  proof (cases "max tim2 (ai_ns_min this_board) div I8254_OSC_BASE_4MHZ \<le> ai_pacer_min this_board")
    case True
    then have "?d1 = ai_pacer_min this_board" by (simp add: max_def)
    then show ?thesis using pm by auto
  next
    case False
    then have "?d1 = max tim2 (ai_ns_min this_board) div I8254_OSC_BASE_4MHZ"
      by (simp add: max_def)
    then show ?thesis
      using m1 unat_lt_2p32 [of "max tim2 (ai_ns_min this_board)"] by simp
  qed
  then have "unat (?d1 * 250) = unat ?d1 * 250"
    by (simp add: unat_mult_lem [THEN iffD1])
  then have nowrap: "unat (?d1 * I8254_OSC_BASE_4MHZ) = unat ?d1 * unat I8254_OSC_BASE_4MHZ"
    by (simp add: I8254_OSC_BASE_4MHZ_def)
  from run ged1 ge ge2 nowrap show ?thesis by blast
qed

theorem calc_divisors_mode2_witness:
  "pci9118dg \<in> set boardtypes
   \<and> pci9118_calc_divisors 2 pci9118dg (attached_subdevice pci9118dg 65536 cmd_timer_one)
        25000 3000 0 1 0 0 0 = Inr (24000, 3000, 12, 8)"
proof -
  have b: "pci9118dg \<in> set boardtypes" by (simp add: boardtypes_def)
  have v: "ai_ns_min pci9118dg = 3000" "ai_pacer_min pci9118dg = 12"
    by (simp_all add: pci9118dg_def)
  have c: "convert_src (cmd (attached_subdevice pci9118dg 65536 cmd_timer_one)) \<noteq> TRIG_NOW"
    by (simp add: attached_subdevice_def cmd_timer_one_def TRIG_NOW_def TRIG_TIMER_def)
  from calc_divisors_mode2 [OF b, of "attached_subdevice pci9118dg 65536 cmd_timer_one"
      25000 3000 0 1 0 0 0]
  show ?thesis
    using b c by (auto simp: v I8254_OSC_BASE_4MHZ_def)
qed

theorem calc_divisors_monotone_witness:
  "pci9118dg \<in> set boardtypes \<and> (3130 :: u32) \<le> 3300 \<and> (25000 :: u32) \<le> 30000
   \<and> (\<exists>t1 t2 d1 d2 t1' t2' d1' d2' t1'' t2'' d1'' d2''.
        pci9118_calc_divisors 2 pci9118dg (attached_subdevice pci9118dg 65536 cmd_timer_one)
          25000 3130 0 1 0 0 0 = Inr (t1, t2, d1, d2)
      \<and> pci9118_calc_divisors 2 pci9118dg (attached_subdevice pci9118dg 65536 cmd_timer_one)
          25000 3300 0 1 0 0 0 = Inr (t1', t2', d1', d2')
      \<and> pci9118_calc_divisors 2 pci9118dg (attached_subdevice pci9118dg 65536 cmd_timer_one)
          30000 3130 0 1 0 0 0 = Inr (t1'', t2'', d1'', d2'')
      \<and> t2 \<le> t2' \<and> ai_ns_min pci9118dg \<le> t2 \<and> t2'' = t2 \<and> t1 \<le> t1'')"
proof -
  have b: "pci9118dg \<in> set boardtypes" by (simp add: boardtypes_def)
  have le: "(3130 :: u32) \<le> 3300" "(25000 :: u32) \<le> 30000" by simp_all
  from calc_divisors_monotone [of pci9118dg 2 3130 3300 25000 30000
      "attached_subdevice pci9118dg 65536 cmd_timer_one" 0 1 0 0 0 25000]
  show ?thesis using b le by simp
qed

section \<open>The command test and the start of a command\<close>

lemmas trig_defs = TRIG_NONE_def TRIG_NOW_def TRIG_FOLLOW_def TRIG_TIMER_def TRIG_COUNT_def
  TRIG_EXT_def TRIG_INT_def TRIG_INVALID_def

lemmas cfc_defs = cfc_check_trigger_src_def cfc_check_trigger_is_unique_def
  cfc_check_trigger_arg_is_def cfc_check_trigger_arg_min_def cfc_check_trigger_arg_max_def

lemma EINVAL_nonzero: "- EINVAL \<noteq> 0" "EINVAL \<noteq> 0"
  by (simp_all add: EINVAL_def)

lemma fold_err_step_inv:
  assumes "\<And>k e c. k \<in> set ks \<Longrightarrow> I (e, c) \<Longrightarrow> I (err_step k (e, c))"
    and "I ec"
  shows "I (fold err_step ks ec)"
  using assms
proof (induction ks arbitrary: ec)
  case Nil
  then show ?case by simp
next
  case (Cons k ks)
  have "I (err_step k ec)" using Cons.prems by (cases ec) simp
  then show ?case using Cons.IH Cons.prems(1) by simp
qed

lemma cfc_check_trigger_src_ok:
  "fst (cfc_check_trigger_src src flgs) = 0 \<Longrightarrow> snd (cfc_check_trigger_src src flgs) = src"
  by (auto simp: cfc_check_trigger_src_def Let_def EINVAL_nonzero split: if_splits)

lemma cmdtest_step1_ok:
  assumes "fst (cmdtest_step1 devpriv c) = 0"
  shows "snd (cmdtest_step1 devpriv c) = c"
    and "fst (cfc_check_trigger_src (start_src c) (TRIG_NOW OR TRIG_EXT OR TRIG_INT)) = 0"
    and "fst (cfc_check_trigger_src (scan_begin_src c)
           (if master devpriv \<noteq> 0 then TRIG_FOLLOW OR (TRIG_TIMER OR TRIG_EXT) else TRIG_FOLLOW)) = 0"
    and "fst (cfc_check_trigger_src (convert_src c)
           (if master devpriv \<noteq> 0 then (TRIG_TIMER OR TRIG_EXT) OR TRIG_NOW
            else TRIG_TIMER OR TRIG_EXT)) = 0"
    and "fst (cfc_check_trigger_src (scan_end_src c) TRIG_COUNT) = 0"
    and "fst (cfc_check_trigger_src (stop_src c) (TRIG_COUNT OR TRIG_NONE OR TRIG_EXT)) = 0"
proof -
  have all: "fst (cfc_check_trigger_src (start_src c) (TRIG_NOW OR TRIG_EXT OR TRIG_INT)) = 0
    \<and> fst (cfc_check_trigger_src (scan_begin_src c)
           (if master devpriv \<noteq> 0 then TRIG_FOLLOW OR (TRIG_TIMER OR TRIG_EXT) else TRIG_FOLLOW)) = 0
    \<and> fst (cfc_check_trigger_src (convert_src c)
           (if master devpriv \<noteq> 0 then (TRIG_TIMER OR TRIG_EXT) OR TRIG_NOW
            else TRIG_TIMER OR TRIG_EXT)) = 0
    \<and> fst (cfc_check_trigger_src (scan_end_src c) TRIG_COUNT) = 0
    \<and> fst (cfc_check_trigger_src (stop_src c) (TRIG_COUNT OR TRIG_NONE OR TRIG_EXT)) = 0"
    using assms by (simp add: cmdtest_step1_def Let_def split_beta or_eq_0_iff)
  then show "fst (cfc_check_trigger_src (start_src c) (TRIG_NOW OR TRIG_EXT OR TRIG_INT)) = 0"
    and "fst (cfc_check_trigger_src (scan_begin_src c)
           (if master devpriv \<noteq> 0 then TRIG_FOLLOW OR (TRIG_TIMER OR TRIG_EXT) else TRIG_FOLLOW)) = 0"
    and "fst (cfc_check_trigger_src (convert_src c)
           (if master devpriv \<noteq> 0 then (TRIG_TIMER OR TRIG_EXT) OR TRIG_NOW
            else TRIG_TIMER OR TRIG_EXT)) = 0"
    and "fst (cfc_check_trigger_src (scan_end_src c) TRIG_COUNT) = 0"
    and "fst (cfc_check_trigger_src (stop_src c) (TRIG_COUNT OR TRIG_NONE OR TRIG_EXT)) = 0"
    by simp_all
  from all show "snd (cmdtest_step1 devpriv c) = c"
    by (simp add: cmdtest_step1_def Let_def split_beta cfc_check_trigger_src_ok)
qed

lemma cmdtest_step1_rewritten:
  assumes sb: "scan_begin_src c = TRIG_TIMER"
    and ok: "fst (cmdtest_step1 devpriv c) = 0"
  shows "cmdtest_step1 devpriv (timer_one_rewritten c) = (0, timer_one_rewritten c)"
proof -
  note f = cmdtest_step1_ok [OF ok]
  have fl: "fst (cfc_check_trigger_src TRIG_FOLLOW
      (if master devpriv \<noteq> 0 then TRIG_FOLLOW OR (TRIG_TIMER OR TRIG_EXT) else TRIG_FOLLOW)) = 0"
    by (simp add: cfc_check_trigger_src_def Let_def trig_defs)
  have e: "fst (cmdtest_step1 devpriv (timer_one_rewritten c)) = 0"
    using f(2,4,5,6) fl
    by (simp add: cmdtest_step1_def Let_def split_beta timer_one_rewritten_def)
  from cmdtest_step1_ok(1) [OF e] e show ?thesis
    by (simp add: prod_eq_iff)
qed

lemma cmdtest_step2_rewritten:
  assumes sb: "scan_begin_src c = TRIG_TIMER" and cv: "convert_src c = TRIG_TIMER"
    and ok: "cmdtest_step2 c = 0"
  shows "cmdtest_step2 (timer_one_rewritten c) = 0"
proof -
  have u: "cfc_check_trigger_is_unique (start_src c) = 0"
    "cfc_check_trigger_is_unique (convert_src c) = 0"
    "cfc_check_trigger_is_unique (stop_src c) = 0"
    using ok by (simp_all add: cmdtest_step2_def or_eq_0_iff)
  have uf: "cfc_check_trigger_is_unique 4 = 0"
    by (simp add: cfc_check_trigger_is_unique_def)
  show ?thesis
    using u cv by (simp add: cmdtest_step2_def timer_one_rewritten_def uf trig_defs)
qed

lemma step3_prefix:
  assumes sb: "scan_begin_src c = TRIG_TIMER" and cv: "convert_src c = TRIG_TIMER"
    and one: "scan_end_arg c = 1"
  shows "fold err_step [step3_start_arg, step3_scan_begin_zero, step3_rewrite] (0, c) =
           (fst (step3_start_arg c), timer_one_rewritten (snd (step3_start_arg c)))"
    and "fold err_step [step3_start_arg, step3_scan_begin_zero, step3_rewrite]
           (0, timer_one_rewritten c) =
           (fst (step3_start_arg c), timer_one_rewritten (snd (step3_start_arg c)))"
proof -
  have a: "scan_begin_src (snd (step3_start_arg c)) = TRIG_TIMER"
    "convert_src (snd (step3_start_arg c)) = TRIG_TIMER"
    "scan_end_arg (snd (step3_start_arg c)) = 1"
    using sb cv one by (simp_all add: step3_start_arg_def)
  show "fold err_step [step3_start_arg, step3_scan_begin_zero, step3_rewrite] (0, c) =
           (fst (step3_start_arg c), timer_one_rewritten (snd (step3_start_arg c)))"
    using a
    by (simp add: err_step_def step3_scan_begin_zero_def step3_rewrite_def cmdtest_rewrite_def
        timer_one_rewritten_def trig_defs)
  have b: "step3_start_arg (timer_one_rewritten c) =
      (fst (step3_start_arg c), timer_one_rewritten (snd (step3_start_arg c)))"
    by (simp add: step3_start_arg_def timer_one_rewritten_def)
  have z: "step3_scan_begin_zero (timer_one_rewritten (snd (step3_start_arg c))) =
      (0, timer_one_rewritten (snd (step3_start_arg c)))"
    by (simp add: step3_scan_begin_zero_def timer_one_rewritten_def cfc_defs trig_defs)
  have r: "cmdtest_rewrite (timer_one_rewritten (snd (step3_start_arg c))) =
      timer_one_rewritten (snd (step3_start_arg c))"
    by (simp add: cmdtest_rewrite_def timer_one_rewritten_def trig_defs)
  show "fold err_step [step3_start_arg, step3_scan_begin_zero, step3_rewrite]
           (0, timer_one_rewritten c) =
           (fst (step3_start_arg c), timer_one_rewritten (snd (step3_start_arg c)))"
    by (simp add: err_step_def b z r step3_rewrite_def)
qed

lemma cmdtest_step3_split:
  "cmdtest_step3 this_board c =
     fold err_step
       [step3_scan_begin_min this_board, step3_scan_begin_ext, step3_convert_min this_board,
        step3_convert_ext, step3_stop_arg, step3_chanlist_len, step3_scan_end_min,
        step3_scan_end_mod]
       (fold err_step [step3_start_arg, step3_scan_begin_zero, step3_rewrite] (0, c))"
  by (simp add: cmdtest_step3_def)

lemma cmdtest_step3_rewritten:
  assumes sb: "scan_begin_src c = TRIG_TIMER" and cv: "convert_src c = TRIG_TIMER"
    and one: "scan_end_arg c = 1"
  shows "cmdtest_step3 this_board (timer_one_rewritten c) = cmdtest_step3 this_board c"
  unfolding cmdtest_step3_split step3_prefix [OF sb cv one] ..

lemmas step3_defs = step3_scan_begin_min_def step3_scan_begin_ext_def step3_convert_min_def
  step3_convert_ext_def step3_stop_arg_def step3_chanlist_len_def step3_scan_end_min_def
  step3_scan_end_mod_def

lemma step3_rest_follow_timer:
  fixes c :: comedi_cmd and e :: int and this_board :: boardtype
  assumes "scan_begin_src c = TRIG_FOLLOW" "scan_begin_arg c = 0" "convert_src c = TRIG_TIMER"
  defines "r \<equiv> fold err_step
       [step3_scan_begin_min this_board, step3_scan_begin_ext, step3_convert_min this_board,
        step3_convert_ext, step3_stop_arg, step3_chanlist_len, step3_scan_end_min,
        step3_scan_end_mod] (e, c)"
  shows "scan_begin_src (snd r) = TRIG_FOLLOW \<and> scan_begin_arg (snd r) = 0 \<and>
         convert_src (snd r) = TRIG_TIMER \<and>
         (fst r = 0 \<longrightarrow> e = 0 \<and> convert_arg (snd r) = convert_arg c)"
  unfolding r_def
proof (rule fold_err_step_inv [where I = "\<lambda>r :: int \<times> comedi_cmd. scan_begin_src (snd r) = TRIG_FOLLOW \<and>
         scan_begin_arg (snd r) = 0 \<and> convert_src (snd r) = TRIG_TIMER \<and>
         (fst r = 0 \<longrightarrow> e = 0 \<and> convert_arg (snd r) = convert_arg c)"])
  show "scan_begin_src (snd (e, c)) = TRIG_FOLLOW \<and> scan_begin_arg (snd (e, c)) = 0 \<and>
      convert_src (snd (e, c)) = TRIG_TIMER \<and>
      (fst (e, c) = 0 \<longrightarrow> e = 0 \<and> convert_arg (snd (e, c)) = convert_arg c)"
    using assms(1-3) by simp
next
  fix k :: "comedi_cmd \<Rightarrow> int \<times> comedi_cmd" and e' :: int and c' :: comedi_cmd
  assume k: "k \<in> set [step3_scan_begin_min this_board, step3_scan_begin_ext,
      step3_convert_min this_board, step3_convert_ext, step3_stop_arg, step3_chanlist_len,
      step3_scan_end_min, step3_scan_end_mod]"
    and I: "scan_begin_src (snd (e', c')) = TRIG_FOLLOW \<and> scan_begin_arg (snd (e', c')) = 0 \<and>
      convert_src (snd (e', c')) = TRIG_TIMER \<and>
      (fst (e', c') = 0 \<longrightarrow> e = 0 \<and> convert_arg (snd (e', c')) = convert_arg c)"
  have one: "scan_begin_src (snd (k c')) = TRIG_FOLLOW \<and> scan_begin_arg (snd (k c')) = 0 \<and>
      convert_src (snd (k c')) = TRIG_TIMER \<and>
      (fst (k c') = 0 \<longrightarrow> convert_arg (snd (k c')) = convert_arg c')"
    using k I
    by (auto simp: step3_defs cfc_defs trig_defs EINVAL_nonzero split: if_splits)
  show "scan_begin_src (snd (err_step k (e', c'))) = TRIG_FOLLOW \<and>
      scan_begin_arg (snd (err_step k (e', c'))) = 0 \<and>
      convert_src (snd (err_step k (e', c'))) = TRIG_TIMER \<and>
      (fst (err_step k (e', c')) = 0 \<longrightarrow>
         e = 0 \<and> convert_arg (snd (err_step k (e', c'))) = convert_arg c)"
    using one I by (simp add: err_step_def or_eq_0_iff)
qed

lemma cmdtest_step4_follow_timer:
  assumes "scan_begin_src c = TRIG_FOLLOW" "convert_src c = TRIG_TIMER"
  shows "scan_begin_src (snd (cmdtest_step4 this_board c)) = TRIG_FOLLOW \<and>
         scan_begin_arg (snd (cmdtest_step4 this_board c)) = scan_begin_arg c \<and>
         convert_src (snd (cmdtest_step4 this_board c)) = TRIG_TIMER \<and>
         (fst (cmdtest_step4 this_board c) = 0 \<longrightarrow>
            convert_arg (snd (cmdtest_step4 this_board c)) = convert_arg c)"
  using assms
  by (auto simp: cmdtest_step4_def Let_def split_beta cfc_defs trig_defs EINVAL_nonzero
      split: if_splits)

lemma exttrg_add_keeps:
  "ai_do (snd (pci9118_exttrg_add d src)) = ai_do d"
  "ai_act_dmapos (snd (pci9118_exttrg_add d src)) = ai_act_dmapos d"
  "ai12_startstop (snd (pci9118_exttrg_add d src)) = ai12_startstop d"
  by (simp_all add: pci9118_exttrg_add_def)

lemma docmd_sampl_keeps:
  assumes "pci9118_ai_docmd_sampl d = (ret, d')"
  shows "ai_do d' = ai_do d" and "ai_act_dmapos d' = ai_act_dmapos d"
    and "ret = 0 \<Longrightarrow> ai_do d = 1 \<or> ai_do d = 3"
  using assms
  by (auto simp: pci9118_ai_docmd_sampl_def Let_def exttrg_add_keeps EIO_def split: if_splits)

lemma Compute_and_setup_dma_keeps:
  assumes "Compute_and_setup_dma d s = Inr (ret, d')"
  shows "ai_do d' = ai_do d" and "ai_act_dmapos d' = ai_act_dmapos d"
    and "ai12_startstop d' = ai12_startstop d" and "softsshdelay d' = softsshdelay d"
    and "AdControlReg d' = AdControlReg d" and "AdFunctionReg d' = AdFunctionReg d"
    and "IntControlReg d' = IntControlReg d" and "exttrg_users d' = exttrg_users d"
  using assms
  by (auto simp: Compute_and_setup_dma_def split: sum.splits)

lemma docmd_dma_keeps:
  assumes "pci9118_ai_docmd_dma d s = Inr (ret, d')"
  shows "ai_do d' = ai_do d" and "ai_act_dmapos d' = ai_act_dmapos d"
    and "ret = 0 \<Longrightarrow> ai_do d = 1 \<or> ai_do d = 2 \<or> ai_do d = 3 \<or> ai_do d = 4"
proof -
  from assms obtain r d0 where c: "Compute_and_setup_dma d s = Inr (r, d0)"
    by (auto simp: pci9118_ai_docmd_dma_def split: sum.splits)
  note k = Compute_and_setup_dma_keeps [OF c]
  from assms c k(1,2) show "ai_do d' = ai_do d" and "ai_act_dmapos d' = ai_act_dmapos d"
    and "ret = 0 \<Longrightarrow> ai_do d = 1 \<or> ai_do d = 2 \<or> ai_do d = 3 \<or> ai_do d = 4"
    by (auto simp: pci9118_ai_docmd_dma_def Let_def exttrg_add_keeps EIO_def split: if_splits)
qed

lemma ai_cmd_mode_table:
  assumes "ai_cmd_mode this_board d s = Inr (None, d', s')"
  shows "scan_begin_src (cmd s') = scan_begin_src (cmd s)"
    and "convert_src (cmd s') = convert_src (cmd s)"
    and "usedma d' = usedma d"
    and "(scan_begin_src (cmd s) = TRIG_FOLLOW \<or> scan_begin_src (cmd s) = TRIG_INT) \<and>
           convert_src (cmd s) = TRIG_TIMER \<Longrightarrow> ai_do d' = 1"
    and "scan_begin_src (cmd s) = TRIG_EXT \<and> convert_src (cmd s) = TRIG_TIMER \<Longrightarrow> ai_do d' = 4"
    and "scan_begin_src (cmd s) = TRIG_TIMER \<and>
           (convert_src (cmd s) = TRIG_TIMER \<or> convert_src (cmd s) = TRIG_NOW) \<Longrightarrow> ai_do d' = 2"
    and "scan_begin_src (cmd s) = TRIG_FOLLOW \<and> convert_src (cmd s) = TRIG_EXT \<Longrightarrow> ai_do d' = 3"
    and "scan_begin_src (cmd s) = TRIG_EXT \<and> convert_src (cmd s) = TRIG_NOW \<Longrightarrow>
           ai_do d' = ai_do d"
  using assms
  by (auto simp: ai_cmd_mode_def Let_def trig_defs
      split: sum.splits prod.splits option.splits if_splits)

lemma ai_cmd_startstop_cmd: "cmd (snd (ai_cmd_startstop d s)) = cmd s"
  by (simp add: ai_cmd_startstop_def Let_def)

lemma ai_cmd_softssh_keeps:
  assumes "ai_cmd_softssh this_board d c = Inr (d', c')"
  shows "scan_begin_src c' = scan_begin_src c" and "convert_src c' = convert_src c"
  using assms by (auto simp: ai_cmd_softssh_def Let_def split: if_splits)

lemma ai_cmd_mode_early:
  "ai_cmd_mode this_board d s = Inr (Some e, d', s') \<Longrightarrow> e = - EIO"
  by (auto simp: ai_cmd_mode_def Let_def
      split: sum.splits prod.splits option.splits if_splits)

lemma ai_cmd_success:
  assumes "pci9118_ai_cmd this_board d s = Inr (0, d', s')"
  obtains d5 s3 d6 s6 where
    "ai_cmd_mode this_board d5 s3 = Inr (None, d6, s6)"
    "scan_begin_src (cmd s3) = scan_begin_src (cmd s)"
    "convert_src (cmd s3) = convert_src (cmd s)"
    "(pci9118_ai_docmd_dma
        (d6\<lparr>AdControlReg := 0, AdFunctionReg := AdFunction_PDTrg OR AdFunction_PETrg,
            ai_act_scan := 0, ai_act_dmapos := 0\<rparr>) (s6\<lparr>cur_chan := 0\<rparr>) = Inr (0, d')) \<or>
     pci9118_ai_docmd_sampl
        (d6\<lparr>AdControlReg := 0, AdFunctionReg := AdFunction_PDTrg OR AdFunction_PETrg,
            ai_act_scan := 0, ai_act_dmapos := 0\<rparr>) = (0, d')"
proof -
  obtain d1 s1 where ss: "ai_cmd_startstop d s = (d1, s1)" by (cases "ai_cmd_startstop d s")
  then have c1: "cmd s1 = cmd s" using ai_cmd_startstop_cmd [of d s] by simp
  from assms ss obtain d3 c3 where
    sh: "ai_cmd_softssh this_board (ai_cmd_padding d1 (cmd s1)) (cmd s1) = Inr (d3, c3)"
    by (auto simp: pci9118_ai_cmd_def Let_def split: sum.splits)
  note k = ai_cmd_softssh_keeps [OF sh]
  from assms ss sh obtain d5 d6 s6 where
    m: "ai_cmd_mode this_board d5 (s1\<lparr>cmd := c3\<rparr>) = Inr (None, d6, s6)"
    and fin: "(pci9118_ai_docmd_dma
        (d6\<lparr>AdControlReg := 0, AdFunctionReg := AdFunction_PDTrg OR AdFunction_PETrg,
            ai_act_scan := 0, ai_act_dmapos := 0\<rparr>) (s6\<lparr>cur_chan := 0\<rparr>) = Inr (0, d')) \<or>
     pci9118_ai_docmd_sampl
        (d6\<lparr>AdControlReg := 0, AdFunctionReg := AdFunction_PDTrg OR AdFunction_PETrg,
            ai_act_scan := 0, ai_act_dmapos := 0\<rparr>) = (0, d')"
    by (auto simp: pci9118_ai_cmd_def Let_def EINVAL_def EIO_def
        dest: ai_cmd_mode_early
        split: sum.splits prod.splits option.splits if_splits)
  show thesis
    by (rule that [OF m _ _ fin]) (simp_all add: k c1)
qed

lemma ai_cmd_success_state:
  assumes "pci9118_ai_cmd this_board d s = Inr (0, d', s')"
  shows "ai_act_dmapos d' = 0"
    and "(scan_begin_src (cmd s) = TRIG_FOLLOW \<or> scan_begin_src (cmd s) = TRIG_INT) \<and>
           convert_src (cmd s) = TRIG_TIMER \<Longrightarrow> ai_do d' = 1"
    and "scan_begin_src (cmd s) = TRIG_EXT \<and> convert_src (cmd s) = TRIG_TIMER \<Longrightarrow> ai_do d' = 4"
    and "scan_begin_src (cmd s) = TRIG_TIMER \<and>
           (convert_src (cmd s) = TRIG_TIMER \<or> convert_src (cmd s) = TRIG_NOW) \<Longrightarrow> ai_do d' = 2"
    and "scan_begin_src (cmd s) = TRIG_FOLLOW \<and> convert_src (cmd s) = TRIG_EXT \<Longrightarrow> ai_do d' = 3"
proof -
  from assms obtain d5 s3 d6 s6 where
    m: "ai_cmd_mode this_board d5 s3 = Inr (None, d6, s6)"
    and sb: "scan_begin_src (cmd s3) = scan_begin_src (cmd s)"
    and cv: "convert_src (cmd s3) = convert_src (cmd s)"
    and fin: "(pci9118_ai_docmd_dma
        (d6\<lparr>AdControlReg := 0, AdFunctionReg := AdFunction_PDTrg OR AdFunction_PETrg,
            ai_act_scan := 0, ai_act_dmapos := 0\<rparr>) (s6\<lparr>cur_chan := 0\<rparr>) = Inr (0, d')) \<or>
     pci9118_ai_docmd_sampl
        (d6\<lparr>AdControlReg := 0, AdFunctionReg := AdFunction_PDTrg OR AdFunction_PETrg,
            ai_act_scan := 0, ai_act_dmapos := 0\<rparr>) = (0, d')"
    by (rule ai_cmd_success)
  let ?d7 = "d6\<lparr>AdControlReg := 0, AdFunctionReg := AdFunction_PDTrg OR AdFunction_PETrg,
            ai_act_scan := 0, ai_act_dmapos := 0\<rparr>"
  from fin have keep: "ai_do d' = ai_do ?d7 \<and> ai_act_dmapos d' = ai_act_dmapos ?d7"
    using docmd_dma_keeps(1,2) docmd_sampl_keeps(1,2) by blast
  then show "ai_act_dmapos d' = 0" by simp
  note t = ai_cmd_mode_table [OF m, unfolded sb cv]
  from keep have "ai_do d' = ai_do d6" by simp
  with t show "(scan_begin_src (cmd s) = TRIG_FOLLOW \<or> scan_begin_src (cmd s) = TRIG_INT) \<and>
           convert_src (cmd s) = TRIG_TIMER \<Longrightarrow> ai_do d' = 1"
    and "scan_begin_src (cmd s) = TRIG_EXT \<and> convert_src (cmd s) = TRIG_TIMER \<Longrightarrow> ai_do d' = 4"
    and "scan_begin_src (cmd s) = TRIG_TIMER \<and>
           (convert_src (cmd s) = TRIG_TIMER \<or> convert_src (cmd s) = TRIG_NOW) \<Longrightarrow> ai_do d' = 2"
    and "scan_begin_src (cmd s) = TRIG_FOLLOW \<and> convert_src (cmd s) = TRIG_EXT \<Longrightarrow> ai_do d' = 3"
    by simp_all
qed

text \<open>
  Claim C10.  Take a command with a timed scan, timed conversions and a
  scan-end count of 1 that gets past the steps 1 and 2 of
  \<^verbatim>\<open>pci9118_ai_cmdtest\<close> (the test returns neither 1 nor 2).  The command
  that the test leaves has the scan-begin source \<^verbatim>\<open>TRIG_FOLLOW\<close> and the
  scan-begin argument 0, and when the test accepts it the convert period is
  the scan period that was asked for.  The rewriting statement itself turns
  the command into \<open>timer_one_rewritten c\<close>, whose convert period is the
  scan period of \<open>c\<close>, and adds nothing to the error code: after it the
  code is what the check of the start argument left.  The rewrite raises no
  error of its own: the test gives the same verdict and leaves the same
  command as on the single-timer command \<open>timer_one_rewritten c\<close> submitted
  directly.  And
  whenever \<^verbatim>\<open>pci9118_ai_cmd\<close> starts the command that the test left, it runs
  in mode 1, the single-timer mode, not in mode 2.
\<close>

theorem cmdtest_rewrites_timer_one:
  assumes sb: "scan_begin_src c = TRIG_TIMER"
    and cv: "convert_src c = TRIG_TIMER"
    and one: "scan_end_arg c = 1"
    and run: "pci9118_ai_cmdtest this_board devpriv s c = Inr (r, c')"
    and args: "r \<noteq> 1" "r \<noteq> 2"
  shows "scan_begin_src c' = TRIG_FOLLOW \<and> scan_begin_arg c' = 0 \<and> convert_src c' = TRIG_TIMER
       \<and> (if r = 0 then convert_arg c' = scan_begin_arg c else True)
       \<and> step3_rewrite c = (0, timer_one_rewritten c)
       \<and> convert_arg (timer_one_rewritten c) = scan_begin_arg c
       \<and> fold err_step [step3_start_arg, step3_scan_begin_zero, step3_rewrite] (0, c) =
           (fst (step3_start_arg c), timer_one_rewritten (snd (step3_start_arg c)))
       \<and> pci9118_ai_cmdtest this_board devpriv s (timer_one_rewritten c) = Inr (r, c')
       \<and> (\<forall>d s0 d' s'.
            pci9118_ai_cmd this_board d (s0\<lparr>cmd := c'\<rparr>) = Inr (0, d', s') \<longrightarrow> ai_do d' = 1)"
proof -
  have e1: "fst (cmdtest_step1 devpriv c) = 0"
    using run args(1) by (auto simp: pci9118_ai_cmdtest_def Let_def split_beta split: if_splits)
  then have s1: "cmdtest_step1 devpriv c = (0, c)"
    using cmdtest_step1_ok(1) [OF e1] by (simp add: prod_eq_iff)
  have s2: "cmdtest_step2 c = 0"
    using run args(2) by (auto simp: pci9118_ai_cmdtest_def s1 Let_def split_beta split: if_splits)
  have s1r: "cmdtest_step1 devpriv (timer_one_rewritten c) = (0, timer_one_rewritten c)"
    by (rule cmdtest_step1_rewritten [OF sb e1])
  have s2r: "cmdtest_step2 (timer_one_rewritten c) = 0"
    by (rule cmdtest_step2_rewritten [OF sb cv s2])
  have s3r: "cmdtest_step3 this_board (timer_one_rewritten c) = cmdtest_step3 this_board c"
    by (rule cmdtest_step3_rewritten [OF sb cv one])
  have same: "pci9118_ai_cmdtest this_board devpriv s (timer_one_rewritten c) = Inr (r, c')"
    using run by (simp add: pci9118_ai_cmdtest_def s1 s2 s1r s2r s3r)
  let ?p = "timer_one_rewritten (snd (step3_start_arg c))"
  have p: "scan_begin_src ?p = TRIG_FOLLOW" "scan_begin_arg ?p = 0" "convert_src ?p = TRIG_TIMER"
    "convert_arg ?p = scan_begin_arg c"
    using cv by (simp_all add: timer_one_rewritten_def step3_start_arg_def)
  have s3: "cmdtest_step3 this_board c = fold err_step
       [step3_scan_begin_min this_board, step3_scan_begin_ext, step3_convert_min this_board,
        step3_convert_ext, step3_stop_arg, step3_chanlist_len, step3_scan_end_min,
        step3_scan_end_mod] (fst (step3_start_arg c), ?p)"
    unfolding cmdtest_step3_split step3_prefix(1) [OF sb cv one] ..
  obtain e3 c3 where r3: "cmdtest_step3 this_board c = (e3, c3)"
    by (cases "cmdtest_step3 this_board c")
  have k3: "scan_begin_src c3 = TRIG_FOLLOW" "scan_begin_arg c3 = 0" "convert_src c3 = TRIG_TIMER"
    and v3: "e3 = 0 \<Longrightarrow> convert_arg c3 = scan_begin_arg c"
    using step3_rest_follow_timer [OF p(1,2,3), of this_board "fst (step3_start_arg c)"]
    unfolding s3 [symmetric] r3 p(4) by simp_all
  obtain e4 c4 where r4: "cmdtest_step4 this_board c3 = (e4, c4)"
    by (cases "cmdtest_step4 this_board c3")
  have k4: "scan_begin_src c4 = TRIG_FOLLOW" "scan_begin_arg c4 = 0" "convert_src c4 = TRIG_TIMER"
    and v4: "e4 = 0 \<Longrightarrow> convert_arg c4 = convert_arg c3"
    using cmdtest_step4_follow_timer [OF k3(1,3), of this_board] k3(2) unfolding r4 by simp_all
  have res: "(r = 3 \<and> e3 \<noteq> 0 \<and> c' = c3) \<or> (r = 4 \<and> e3 = 0 \<and> e4 \<noteq> 0 \<and> c' = c4) \<or>
      ((r = 5 \<or> r = 0) \<and> e3 = 0 \<and> e4 = 0 \<and> c' = c4)"
    using run
    by (auto simp: pci9118_ai_cmdtest_def s1 s2 r3 r4 split: if_splits option.splits sum.splits)
  have fields: "scan_begin_src c' = TRIG_FOLLOW \<and> scan_begin_arg c' = 0 \<and>
      convert_src c' = TRIG_TIMER"
    using res k3 k4 by auto
  have conv: "if r = 0 then convert_arg c' = scan_begin_arg c else True"
    using res v3 v4 by auto
  have mode: "\<forall>d s0 d' s'.
      pci9118_ai_cmd this_board d (s0\<lparr>cmd := c'\<rparr>) = Inr (0, d', s') \<longrightarrow> ai_do d' = 1"
  proof (intro allI impI)
    fix d s0 d' s'
    assume "pci9118_ai_cmd this_board d (s0\<lparr>cmd := c'\<rparr>) = Inr (0, d', s')"
    from ai_cmd_success_state(2) [OF this] fields show "ai_do d' = 1" by simp
  qed
  have stmt: "step3_rewrite c = (0, timer_one_rewritten c)"
    "convert_arg (timer_one_rewritten c) = scan_begin_arg c"
    using sb cv one
    by (simp_all add: step3_rewrite_def cmdtest_rewrite_def timer_one_rewritten_def)
  note pre = step3_prefix(1) [OF sb cv one]
  from fields conv stmt pre same mode show ?thesis by blast
qed

subsection \<open>Running the model on the examples\<close>

lemmas const_defs = trig_defs TRIG_WAKE_EOS_def TRIG_ROUND_MASK_def TRIG_ROUND_NEAREST_def
  AREF_DIFF_def EINVAL_def EIO_def COMEDI_CB_EOA_def COMEDI_CB_ERROR_def I8254_OSC_BASE_4MHZ_def
  PCI9118_CHANLEN_def PCI9118_BIPOLAR_RANGES_def PAGE_SIZE_def
  AdControl_UniP_def AdControl_Diff_def AdControl_SoftG_def AdControl_ExtG_def AdControl_ExtM_def
  AdControl_TmrTr_def AdControl_Int_def AdControl_Dma_def
  AdFunction_PDTrg_def AdFunction_PETrg_def AdFunction_BSSH_def AdFunction_BM_def
  AdFunction_BS_def AdFunction_PM_def AdFunction_AM_def AdFunction_Start_def
  Int_Timer_def Int_About_def Int_Hfull_def Int_DTrg_def
  START_AI_EXT_def STOP_AI_EXT_def START_AI_INT_def STOP_AI_INT_def EXTTRG_AI_def
  CR_PACK_def CR_AREF_def CR_RANGE_def CR_CHAN_def

lemmas example_defs = attached_master_def attached_nodma_def pci9118_common_attach_def
  pci9118_reset_def zero_private_def attach_maskharderr_def attached_subdevice_def
  pci9118dg_def pci9118hg_def pci9118hr_def
  cmd_ext_now_def cmd_timer_one_def cmd_follow_timer_def padded_run_def timer_one_rewritten_def

lemmas cmdtest_defs = pci9118_ai_cmdtest_def cmdtest_step1_def cmdtest_step2_def cmdtest_step3_def
  cmdtest_step4_def err_step_def step3_start_arg_def step3_scan_begin_zero_def step3_rewrite_def
  cmdtest_rewrite_def step3_defs cfc_defs check_channel_list_def check_channel_loop.simps
  i8253_cascade_ns_to_timer_def cascade_divider_def

lemmas ai_cmd_defs = pci9118_ai_cmd_def ai_cmd_startstop_def ai_cmd_padding_def ai_cmd_softssh_def
  setup_channel_list_def ai_cmd_mode_def pci9118_calc_divisors_def pci9118_ai_docmd_dma_def
  Compute_and_setup_dma_def dma_transfer_sizes_def pci9118_ai_docmd_sampl_def
  pci9118_exttrg_add_def pci9118_exttrg_del_def pci9118_ai_cancel_def
  check_channel_list_def check_channel_loop.simps
  i8253_cascade_ns_to_timer_def cascade_divider_def

lemma cmd_timer_one_accepted:
  "pci9118_ai_cmdtest pci9118dg attached_master
     (attached_subdevice pci9118dg 65536 cmd_timer_one) cmd_timer_one =
   Inr (0, timer_one_rewritten cmd_timer_one)"
  by (simp add: cmdtest_defs const_defs example_defs Let_def)

lemma cmd_timer_one_started:
  "case pci9118_ai_cmd pci9118dg attached_master
          (attached_subdevice pci9118dg 65536 (timer_one_rewritten cmd_timer_one)) of
     Inl f \<Rightarrow> False
   | Inr (ret, d, s) \<Rightarrow> ret = 0"
  by (simp add: ai_cmd_defs const_defs example_defs Let_def)

theorem cmdtest_rewrites_timer_one_witness:
  "scan_begin_src cmd_timer_one = TRIG_TIMER \<and> convert_src cmd_timer_one = TRIG_TIMER
   \<and> scan_end_arg cmd_timer_one = 1 \<and> scan_begin_arg cmd_timer_one = 20000
   \<and> pci9118_ai_cmdtest pci9118dg attached_master
        (attached_subdevice pci9118dg 65536 cmd_timer_one) cmd_timer_one =
      Inr (0, timer_one_rewritten cmd_timer_one)
   \<and> scan_begin_src (timer_one_rewritten cmd_timer_one) = TRIG_FOLLOW
   \<and> scan_begin_arg (timer_one_rewritten cmd_timer_one) = 0
   \<and> convert_arg (timer_one_rewritten cmd_timer_one) = 20000
   \<and> pci9118_ai_cmdtest pci9118dg attached_master
        (attached_subdevice pci9118dg 65536 cmd_timer_one) (timer_one_rewritten cmd_timer_one) =
      Inr (0, timer_one_rewritten cmd_timer_one)
   \<and> (\<exists>d' s'. pci9118_ai_cmd pci9118dg attached_master
          (attached_subdevice pci9118dg 65536 (timer_one_rewritten cmd_timer_one)) =
          Inr (0, d', s') \<and> ai_do d' = 1)"
proof -
  have h: "scan_begin_src cmd_timer_one = TRIG_TIMER" "convert_src cmd_timer_one = TRIG_TIMER"
    "scan_end_arg cmd_timer_one = 1" "scan_begin_arg cmd_timer_one = 20000"
    by (simp_all add: cmd_timer_one_def)
  have n: "(0 :: int) \<noteq> 1" "(0 :: int) \<noteq> 2" by simp_all
  note t = cmdtest_rewrites_timer_one [OF h(1,2,3) cmd_timer_one_accepted n]
  obtain d' s' where run: "pci9118_ai_cmd pci9118dg attached_master
      (attached_subdevice pci9118dg 65536 (timer_one_rewritten cmd_timer_one)) = Inr (0, d', s')"
    using cmd_timer_one_started by (auto split: sum.splits)
  have sub: "attached_subdevice pci9118dg 65536 (timer_one_rewritten cmd_timer_one) =
      (attached_subdevice pci9118dg 65536 cmd_timer_one)\<lparr>cmd := timer_one_rewritten cmd_timer_one\<rparr>"
    by (simp add: attached_subdevice_def)
  have "ai_do d' = 1"
    using t run unfolding sub by blast
  with t run h cmd_timer_one_accepted show ?thesis by auto
qed

text \<open>
  Claim C3, at the input where the code leaves the decision table.  On a board
  with bus mastering \<^verbatim>\<open>pci9118_ai_cmdtest\<close> accepts the command
  \<open>cmd_ext_now\<close> (scans on the external trigger, conversions at once) as it
  is, and \<^verbatim>\<open>pci9118_ai_cmd\<close> then matches none of its three cases: it assigns
  no mode, \<open>ai_do\<close> stays 0, and the start fails with \<open>- EIO\<close> in the branch
  that the driver logs as a mode number bug.
\<close>

theorem ai_cmd_ext_now_has_no_mode:
  "pci9118_ai_cmdtest pci9118dg attached_master
     (attached_subdevice pci9118dg 65536 cmd_ext_now) cmd_ext_now = Inr (0, cmd_ext_now)
   \<and> (case pci9118_ai_cmd pci9118dg attached_master
             (attached_subdevice pci9118dg 65536 cmd_ext_now) of
        Inl f \<Rightarrow> False
      | Inr (ret, d, s) \<Rightarrow> ret = - EIO \<and> ai_do d = 0)"
  by (simp add: cmdtest_defs ai_cmd_defs const_defs example_defs Let_def)

section \<open>The cursor of the padding removal\<close>

lemma defragment_loop_cursor:
  "raw_scanlen \<noteq> 0 \<Longrightarrow> num \<le> length buf \<Longrightarrow>
   \<exists>j' buf' pos'.
     defragment_loop start_pos stop_pos raw_scanlen num i j buf pos = Inr (j', buf', pos')
     \<and> length buf' = length buf
     \<and> (i < num \<longrightarrow> pos' < raw_scanlen)
     \<and> (pos < raw_scanlen \<longrightarrow>
          pos' < raw_scanlen \<and> unat pos' = (unat pos + (num - i)) mod unat raw_scanlen)"
proof (induction start_pos stop_pos raw_scanlen num i j buf pos
    rule: defragment_loop.induct)
  case (1 start_pos stop_pos raw_scanlen num i j buf pos)
  show ?case
  proof (cases "i < num")
    case False
    then show ?thesis
      by (subst defragment_loop.simps) (simp add: word_less_nat_alt)
  next
    case True
    have len: "\<not> length buf \<le> i" using True "1.prems" by simp
    have nz: "raw_scanlen \<noteq> 0" by (rule "1.prems"(1))
    let ?p = "(pos + 1) mod raw_scanlen"
    have lt: "?p < raw_scanlen"
      using nz by (simp add: word_mod_less_divisor word_neq_0_conv)
    have st: "unat ?p = Suc (unat pos) mod unat raw_scanlen" if "pos < raw_scanlen"
      using unat_cursor_step [of pos raw_scanlen] that by (simp add: word_less_nat_alt)
    have "(Suc (unat pos) mod unat raw_scanlen + (num - Suc i)) mod unat raw_scanlen =
        (Suc (unat pos) + (num - Suc i)) mod unat raw_scanlen"
      by (rule mod_add_left_eq)
    moreover have "Suc (unat pos) + (num - Suc i) = unat pos + (num - i)"
      using True by arith
    ultimately have fin: "(Suc (unat pos) mod unat raw_scanlen + (num - Suc i)) mod
        unat raw_scanlen = (unat pos + (num - i)) mod unat raw_scanlen"
      by (simp only:)
    show ?thesis
    proof (cases "start_pos \<le> pos \<and> pos < stop_pos")
      case w: True
      from "1.IH"(1) [OF True len nz w nz] "1.prems"(2)
      obtain j' buf' pos' where
        r: "defragment_loop start_pos stop_pos raw_scanlen num (Suc i) (Suc j)
              (buf[j := buf ! i]) ?p = Inr (j', buf', pos')"
        and l: "length buf' = length buf"
        and b: "?p < raw_scanlen \<longrightarrow> pos' < raw_scanlen \<and>
              unat pos' = (unat ?p + (num - Suc i)) mod unat raw_scanlen"
        by auto
      have cur: "defragment_loop start_pos stop_pos raw_scanlen num i j buf pos =
          defragment_loop start_pos stop_pos raw_scanlen num (Suc i) (Suc j)
            (buf[j := buf ! i]) ?p"
        using w True len nz by (subst defragment_loop.simps) simp
      show ?thesis
        unfolding cur r using l b lt st fin by auto
    next
      case w: False
      from "1.IH"(2) [OF True len nz w nz] "1.prems"(2)
      obtain j' buf' pos' where
        r: "defragment_loop start_pos stop_pos raw_scanlen num (Suc i) j buf ?p =
              Inr (j', buf', pos')"
        and l: "length buf' = length buf"
        and b: "?p < raw_scanlen \<longrightarrow> pos' < raw_scanlen \<and>
              unat pos' = (unat ?p + (num - Suc i)) mod unat raw_scanlen"
        by auto
      have wF: "(start_pos \<le> pos \<and> pos < stop_pos) = False" using w by simp
      have cur: "defragment_loop start_pos stop_pos raw_scanlen num i j buf pos =
          defragment_loop start_pos stop_pos raw_scanlen num (Suc i) j buf ?p"
        using True len nz by (subst defragment_loop.simps) (simp only: wF if_True if_False)
      show ?thesis
        unfolding cur r using l b lt st fin by auto
    qed
  qed
qed

text \<open>
  Claim C8.  The cursor \<open>ai_act_dmapos\<close> is 0 after \<^verbatim>\<open>pci9118_ai_cancel\<close>,
  whatever the state was, and 0 when \<^verbatim>\<open>pci9118_ai_cmd\<close> has armed a run
  (returned 0).  With \<open>raw\<close> the padded scan length as the driver computes it
  (front + requested + back, in 32 bits) and not 0,
  \<^verbatim>\<open>defragment_dma_buffer\<close> returns on every block; after a block of at
  least one sample the cursor is below \<open>raw\<close>, wherever it started; and from
  a cursor below \<open>raw\<close> it ends at the start plus the number of samples,
  modulo \<open>raw\<close>.  A block of \<open>n\<close> samples passes through the states of its
  shorter prefixes, so this holds after every sample.
\<close>

theorem dmapos_cursor_invariant:
  fixes devpriv :: pci9118_private and s :: comedi_subdevice
  defines "raw \<equiv> ai_add_front devpriv + chanlist_len (cmd s) + ai_add_back devpriv"
  shows "ai_act_dmapos (fst (snd (pci9118_ai_cancel devpriv s))) = 0
       \<and> (\<forall>d' s'. pci9118_ai_cmd this_board devpriv s = Inr (0, d', s') \<longrightarrow>
             ai_act_dmapos d' = 0)
       \<and> (raw \<noteq> 0 \<and> length buf = unat n \<longrightarrow>
            (\<exists>j buf' d'.
               defragment_dma_buffer devpriv s buf n = Inr (j, buf', d')
             \<and> (if n \<noteq> 0 then ai_act_dmapos d' < raw else True)
             \<and> (if ai_act_dmapos devpriv < raw
                 then ai_act_dmapos d' < raw \<and>
                      unat (ai_act_dmapos d') =
                        (unat (ai_act_dmapos devpriv) + unat n) mod unat raw
                 else True)))"
proof (intro conjI allI impI)
  show "ai_act_dmapos (fst (snd (pci9118_ai_cancel devpriv s))) = 0"
    by (simp add: pci9118_ai_cancel_def Let_def)
next
  fix d' s'
  assume "pci9118_ai_cmd this_board devpriv s = Inr (0, d', s')"
  then show "ai_act_dmapos d' = 0" by (rule ai_cmd_success_state(1))
next
  assume a: "raw \<noteq> 0 \<and> length buf = unat n"
  from defragment_loop_cursor [of raw "unat n" buf "ai_add_front devpriv"
      "ai_add_front devpriv + chanlist_len (cmd s)" 0 0 "ai_act_dmapos devpriv"] a
  obtain j' buf' pos' where
    r: "defragment_loop (ai_add_front devpriv) (ai_add_front devpriv + chanlist_len (cmd s))
          raw (unat n) 0 0 buf (ai_act_dmapos devpriv) = Inr (j', buf', pos')"
    and b1: "0 < unat n \<longrightarrow> pos' < raw"
    and b2: "ai_act_dmapos devpriv < raw \<longrightarrow>
          pos' < raw \<and> unat pos' = (unat (ai_act_dmapos devpriv) + unat n) mod unat raw"
    by auto
  have "0 < unat n" if "n \<noteq> 0" using that by (simp add: unat_gt_0)
  with b1 have b1': "if n \<noteq> 0 then pos' < raw else True" by simp
  show "\<exists>j buf' d'.
               defragment_dma_buffer devpriv s buf n = Inr (j, buf', d')
             \<and> (if n \<noteq> 0 then ai_act_dmapos d' < raw else True)
             \<and> (if ai_act_dmapos devpriv < raw
                 then ai_act_dmapos d' < raw \<and>
                      unat (ai_act_dmapos d') =
                        (unat (ai_act_dmapos devpriv) + unat n) mod unat raw
                 else True)"
    using r b1' b2 by (simp add: defragment_dma_buffer_def raw_def [symmetric])
qed

theorem dmapos_cursor_invariant_witness:
  "ai_act_dmapos (fst (snd (pci9118_ai_cancel padded_run
      (attached_subdevice pci9118dg 65536 cmd_follow_timer)))) = 0
   \<and> (\<exists>d' s'. pci9118_ai_cmd pci9118dg attached_nodma
          (attached_subdevice pci9118dg 65536 cmd_follow_timer) = Inr (0, d', s')
        \<and> ai_act_dmapos d' = 0)
   \<and> (\<exists>j buf' d'. defragment_dma_buffer padded_run
          (attached_subdevice pci9118dg 65536 cmd_follow_timer) [1, 2, 3] 3 = Inr (j, buf', d')
        \<and> ai_act_dmapos d' < 4 \<and> unat (ai_act_dmapos d') = 2)"
proof -
  let ?s = "attached_subdevice pci9118dg 65536 cmd_follow_timer"
  have run: "case pci9118_ai_cmd pci9118dg attached_nodma ?s of
      Inl f \<Rightarrow> False | Inr (ret, d, s) \<Rightarrow> ret = 0"
    by (simp add: ai_cmd_defs const_defs example_defs Let_def)
  then obtain d' s' where r: "pci9118_ai_cmd pci9118dg attached_nodma ?s = Inr (0, d', s')"
    by (auto split: sum.splits)
  have raw: "ai_add_front padded_run + chanlist_len (cmd ?s) + ai_add_back padded_run = 4"
    "ai_act_dmapos padded_run = 3"
    by (simp_all add: padded_run_def attached_subdevice_def cmd_follow_timer_def)
  note a = dmapos_cursor_invariant [of padded_run ?s pci9118dg "[1, 2, 3]" 3]
  note b = dmapos_cursor_invariant [of attached_nodma ?s pci9118dg "[]" 0]
  from b r have "ai_act_dmapos d' = 0" by blast
  with r a show ?thesis by (simp add: raw)
qed

section \<open>Cancelling a run\<close>

lemma and_not_bit0_idem: "(x AND - 2) AND - 2 = x AND (- 2 :: u8)"
  by (simp add: and.assoc)

lemma and_not_bit0_and1: "(x AND - 2) AND (1 :: u8) = 0"
  by (simp add: and.assoc)

text \<open>
  Claim C7, as amended.  \<^verbatim>\<open>pci9118_ai_cancel\<close> returns 0 on every state and
  is idempotent: a second call changes nothing.  On every state, a run active
  or not, it leaves the control register shadow at 0, the function register
  shadow at its idle value, the mode, the DMA flag, the scan counter, the
  cursor, the current channel, the buffer index and the never-ending flag at
  0 and no internal-trigger callback, and it removes the analog input from
  the users of the external trigger.  It does not reset the rest: the
  interrupt control shadow loses its trigger bit only when no other user of
  the external trigger is left and keeps its other bits, and the start/stop
  state \<open>ai12_startstop\<close> stays as it was.
\<close>

theorem ai_cancel_idempotent:
  "(let (r, d', s') = pci9118_ai_cancel devpriv s
    in r = 0
     \<and> pci9118_ai_cancel d' s' = (0, d', s')
     \<and> AdControlReg d' = 0
     \<and> AdFunctionReg d' = AdFunction_PDTrg OR AdFunction_PETrg
     \<and> ai_do d' = 0 \<and> usedma d' = 0
     \<and> ai_act_scan d' = 0 \<and> ai_act_dmapos d' = 0 \<and> cur_chan s' = 0
     \<and> dma_actbuf d' = 0 \<and> ai_neverending d' = 0 \<and> inttrig s' = False
     \<and> exttrg_users d' AND 1 = 0
     \<and> exttrg_users d' = exttrg_users devpriv AND NOT 1
     \<and> IntControlReg d' =
         (if exttrg_users devpriv AND NOT 1 = 0 then IntControlReg devpriv AND NOT Int_DTrg
          else IntControlReg devpriv)
     \<and> ai12_startstop d' = ai12_startstop devpriv)"
  by (simp add: pci9118_ai_cancel_def pci9118_exttrg_del_def Let_def EXTTRG_AI_def
      Int_DTrg_def and_not_bit0_idem and_not_bit0_and1)

text \<open>
  The counterexample to C7 as stated: after the run of \<open>cmd_follow_timer\<close>
  on a board without bus mastering, the cancel leaves the timer bit in the
  interrupt control shadow and the pending external start in
  \<open>ai12_startstop\<close>; on the same board with no run active it leaves both
  at 0.  The two final states differ.
\<close>

theorem ai_cancel_state_counterexample:
  "(case pci9118_ai_cmd pci9118dg attached_nodma
           (attached_subdevice pci9118dg 65536 cmd_follow_timer) of
      Inl f \<Rightarrow> False
    | Inr (ret, d, s) \<Rightarrow>
        ret = 0 \<and> ai_do d = 1
      \<and> IntControlReg (fst (snd (pci9118_ai_cancel d s))) = Int_Timer
      \<and> ai12_startstop (fst (snd (pci9118_ai_cancel d s))) = START_AI_EXT)
   \<and> IntControlReg (fst (snd (pci9118_ai_cancel attached_nodma
          (attached_subdevice pci9118dg 65536 cmd_follow_timer)))) = 0
   \<and> ai12_startstop (fst (snd (pci9118_ai_cancel attached_nodma
          (attached_subdevice pci9118dg 65536 cmd_follow_timer)))) = 0"
  by (simp add: ai_cmd_defs const_defs example_defs Let_def)

section \<open>Where the code departs from its own rules\<close>

text \<open>
  What \<^verbatim>\<open>pci9118_decode_error_status\<close> does on every status byte: the test of
  bit 0x100 never succeeds on an \<^verbatim>\<open>unsigned char\<close>; the bits 0x008, 0x004 and
  0x002 are cleared from the warned mask when they are set in the status;
  the run ends exactly when the byte meets the hard-error mask.
\<close>

lemma ucast_and_bit_high:
  "8 \<le> k \<Longrightarrow> (ucast (m :: u8) :: u32) AND push_bit k 1 = 0"
  by (rule bit_eqI) (auto simp: bit_simps dest: bit_imp_le_length)

lemma ucast_and_bit_low:
  assumes "k < 8"
  shows "((ucast (m :: u8) :: u32) AND push_bit k 1 \<noteq> 0) = bit m k"
proof -
  have "((ucast m :: u32) AND push_bit k 1 \<noteq> 0) = bit (ucast m :: u32) k"
    by (rule bit_iff_and_push_bit_not_eq_0 [symmetric])
  also have "\<dots> = bit m k"
    using assms by (simp add: bit_simps)
  finally show ?thesis .
qed

lemma ucast_u8_and_0x100: "(ucast (m :: u8) :: u32) AND 0x100 = 0"
  using ucast_and_bit_high [of 8 m] by simp

lemma test_bit_mask:
  "((ucast (m :: u8) :: u32) AND 0x008 \<noteq> 0) = bit m 3"
  "((ucast (m :: u8) :: u32) AND 0x004 \<noteq> 0) = bit m 2"
  "((ucast (m :: u8) :: u32) AND 0x002 \<noteq> 0) = bit m 1"
  using ucast_and_bit_low [of 3 m] ucast_and_bit_low [of 2 m] ucast_and_bit_low [of 1 m]
  by simp_all

lemma decode_error_status_general:
  "pci9118_decode_error_status devpriv s m =
     (if (ucast m :: u32) AND ai_maskharderr devpriv \<noteq> 0 then 1 else 0,
      devpriv\<lparr>ai_maskerr :=
        (let a = ai_maskerr devpriv;
             b = (if bit m 3 then a AND NOT 0x008 else a);
             c = (if bit m 2 then b AND NOT 0x004 else b)
         in if bit m 1 then c AND NOT 0x002 else c)\<rparr>,
      if (ucast m :: u32) AND ai_maskharderr devpriv \<noteq> 0
      then s\<lparr>events := events s OR COMEDI_CB_ERROR OR COMEDI_CB_EOA\<rparr> else s)"
  unfolding pci9118_decode_error_status_def Let_def ucast_u8_and_0x100 test_bit_mask
  by simp

lemma decode_error_status_overspeed_alone:
  "ai_maskharderr devpriv = attach_maskharderr 0 \<Longrightarrow>
   fst (pci9118_decode_error_status devpriv s 0x004) = 0"
  unfolding decode_error_status_general by (simp add: attach_maskharderr_def)

text \<open>
  Claim C6, at the input where the code departs from it.  The parameter of
  \<^verbatim>\<open>pci9118_decode_error_status\<close> is an \<^verbatim>\<open>unsigned char\<close>, so the status
  word 0x100 (FIFO full) of the interrupt handlers arrives as 0: under the
  default hard-error mask 0x10a the function returns 0, raises no event and
  leaves bit 0x100 in the warned mask.  The overrun bit 0x002, which fits
  8 bits, ends the run as the claim says.
\<close>

theorem decode_error_status_drops_fifo_full:
  "ai_maskharderr attached_master = 0x10a
   \<and> pci9118_decode_error_status (attached_master\<lparr>ai_maskerr := 0x10e\<rparr>)
        (attached_subdevice pci9118dg 65536 cmd_follow_timer) (ucast (0x100 :: u16)) =
      (0, attached_master\<lparr>ai_maskerr := 0x10e\<rparr>,
       attached_subdevice pci9118dg 65536 cmd_follow_timer)
   \<and> fst (pci9118_decode_error_status (attached_master\<lparr>ai_maskerr := 0x10e\<rparr>)
        (attached_subdevice pci9118dg 65536 cmd_follow_timer) (ucast (0x002 :: u16))) = 1"
  by (simp add: pci9118_decode_error_status_def example_defs const_defs Let_def)

text \<open>
  What \<^verbatim>\<open>check_channel_list\<close> returns on a list of \<open>n_chan\<close> entries: 0
  exactly when the list is empty, too long for the queue, or has an entry
  after the first that differs from the first in its reference or in its
  polarity or, without a multiplexer and with a differential first entry, is
  on a channel at or beyond \<open>n_aichand\<close>.
\<close>

lemma check_channel_loop_result:
  "n \<le> length cl \<Longrightarrow>
   check_channel_loop this_board devpriv cl differencial bipolar k n =
     Inr (if \<exists>i. k \<le> i \<and> i < n \<and>
               ((CR_AREF (cl ! i) = AREF_DIFF) \<noteq> differencial \<or>
                (CR_RANGE (cl ! i) < PCI9118_BIPOLAR_RANGES) \<noteq> bipolar \<or>
                (usemux devpriv = 0 \<and> differencial \<and> n_aichand this_board \<le> CR_CHAN (cl ! i)))
          then 0 else 1)"
proof (induction this_board devpriv cl differencial bipolar k n rule: check_channel_loop.induct)
  case (1 this_board devpriv cl differencial bipolar i n)
  let ?bad = "\<lambda>j. (CR_AREF (cl ! j) = AREF_DIFF) \<noteq> differencial \<or>
                (CR_RANGE (cl ! j) < PCI9118_BIPOLAR_RANGES) \<noteq> bipolar \<or>
                (usemux devpriv = 0 \<and> differencial \<and> n_aichand this_board \<le> CR_CHAN (cl ! j))"
  show ?case
  proof (cases "i < n")
    case False
    then have "\<not> (\<exists>j. i \<le> j \<and> j < n \<and> ?bad j)" by auto
    then show ?thesis using False by (subst check_channel_loop.simps) simp
  next
    case True
    have len: "\<not> length cl \<le> i" using True "1.prems" by simp
    show ?thesis
    proof (cases "?bad i")
      case b: True
      then have ex: "\<exists>j. i \<le> j \<and> j < n \<and> ?bad j" using True by blast
      have "check_channel_loop this_board devpriv cl differencial bipolar i n = Inr 0"
        using True len b by (subst check_channel_loop.simps) auto
      then show ?thesis using ex by simp
    next
      case g: False
      have step: "check_channel_loop this_board devpriv cl differencial bipolar i n =
          check_channel_loop this_board devpriv cl differencial bipolar (Suc i) n"
        using True len g by (subst check_channel_loop.simps) auto
      have ih: "check_channel_loop this_board devpriv cl differencial bipolar (Suc i) n =
          Inr (if \<exists>j. Suc i \<le> j \<and> j < n \<and> ?bad j then 0 else 1)"
        using "1.IH" [OF True len] g "1.prems" by blast
      have "(\<exists>j. Suc i \<le> j \<and> j < n \<and> ?bad j) = (\<exists>j. i \<le> j \<and> j < n \<and> ?bad j)"
      proof
        assume "\<exists>j. Suc i \<le> j \<and> j < n \<and> ?bad j"
        then obtain j where "Suc i \<le> j" "j < n" "?bad j" by blast
        then have "i \<le> j \<and> j < n \<and> ?bad j" by simp
        then show "\<exists>j. i \<le> j \<and> j < n \<and> ?bad j" ..
      next
        assume "\<exists>j. i \<le> j \<and> j < n \<and> ?bad j"
        then obtain j where j: "i \<le> j" "j < n" "?bad j" by blast
        then have "j \<noteq> i" using g by blast
        then have "Suc i \<le> j \<and> j < n \<and> ?bad j" using j by simp
        then show "\<exists>j. Suc i \<le> j \<and> j < n \<and> ?bad j" ..
      qed
      then show ?thesis unfolding step ih by simp
    qed
  qed
qed

lemma check_channel_list_result:
  assumes "length cl = unat n_chan"
  shows "check_channel_list this_board devpriv s n_chan cl frontadd backadd =
     Inr (if sint n_chan < 1 \<or> sint (len_chanlist s) < sint (frontadd + n_chan + backadd) \<or>
             (\<exists>i. 1 \<le> i \<and> i < length cl \<and>
               ((CR_AREF (cl ! i) = AREF_DIFF) \<noteq> (CR_AREF (cl ! 0) = AREF_DIFF) \<or>
                (CR_RANGE (cl ! i) < PCI9118_BIPOLAR_RANGES) \<noteq>
                  (CR_RANGE (cl ! 0) < PCI9118_BIPOLAR_RANGES) \<or>
                (usemux devpriv = 0 \<and> CR_AREF (cl ! 0) = AREF_DIFF \<and>
                 n_aichand this_board \<le> CR_CHAN (cl ! i))))
          then 0 else 1)"
proof (cases "sint n_chan < 1 \<or> sint (len_chanlist s) < sint (frontadd + n_chan + backadd)")
  case True
  then show ?thesis by (auto simp: check_channel_list_def)
next
  case False
  then have "n_chan \<noteq> 0" by auto
  then have ne: "cl \<noteq> []" using assms by (auto simp: unat_eq_0)
  have "unat n_chan \<le> length cl" using assms by simp
  note r = check_channel_loop_result [OF this, of this_board devpriv
      "CR_AREF (cl ! 0) = AREF_DIFF" "CR_RANGE (cl ! 0) < PCI9118_BIPOLAR_RANGES" 1]
  have a: "\<not> sint n_chan < 1" "\<not> sint (len_chanlist s) < sint (frontadd + n_chan + backadd)"
    using False by auto
  have "check_channel_list this_board devpriv s n_chan cl frontadd backadd =
      check_channel_loop this_board devpriv cl (CR_AREF (cl ! 0) = AREF_DIFF)
        (CR_RANGE (cl ! 0) < PCI9118_BIPOLAR_RANGES) 1 (unat n_chan)"
    using a ne by (simp add: check_channel_list_def)
  also note r
  finally show ?thesis
    using a by (simp add: assms)
qed

text \<open>
  Claim C2, at the input where the code departs from it.  Without a
  multiplexer, on a board with 8 differential channels, the list of the one
  differential entry on channel 8 is accepted, while the same entry at
  index 1 is refused: the range check of the loop misses index 0.
\<close>

theorem check_channel_list_accepts_diff_channel_8:
  "usemux attached_master = 0 \<and> n_aichand pci9118dg = 8
   \<and> CR_AREF (CR_PACK 8 0 AREF_DIFF) = AREF_DIFF \<and> CR_CHAN (CR_PACK 8 0 AREF_DIFF) = 8
   \<and> check_channel_list pci9118dg attached_master
        (attached_subdevice pci9118dg 65536 cmd_follow_timer) 1 [CR_PACK 8 0 AREF_DIFF] 0 0 = Inr 1
   \<and> check_channel_list pci9118dg attached_master
        (attached_subdevice pci9118dg 65536 cmd_follow_timer) 2
        [CR_PACK 0 0 AREF_DIFF, CR_PACK 8 0 AREF_DIFF] 0 0 = Inr 0"
  by (simp add: check_channel_list_def check_channel_loop.simps example_defs const_defs Let_def)

end
